(* ===== verification/Prelude.thy ===== *)
theory Prelude
  imports Main "HOL-Library.AList"
begin

text \<open>
  Shared vocabulary of the SQLAgent development: the collections of rewrite rules that
  the component theories fill and use, and generic facts on lists that the string,
  regular-expression and gate theories share.
  \<^item> \<open>pystr_simps\<close>: characteristic equations of the Python string primitives;
  \<^item> \<open>rx_simps\<close>: equations of the regular-expression matcher;
  \<^item> \<open>store_simps\<close>: equations of the connection and cursor operations.
  Python strings are sequences of code points; the model reads an Isabelle \<open>char\<close>
  as a code point below 256 (Latin-1), so \<open>string\<close> is a Python \<open>str\<close> over that range.
\<close>

named_theorems pystr_simps "equations of the Python string primitives"
named_theorems rx_simps "equations of the regular-expression matcher"
named_theorems store_simps "equations of the store operations"

type_synonym pystr = string

text \<open>The characters at positions \<open>i\<close> to \<open>j - 1\<close>, Python's \<open>s[i:j]\<close> for \<open>i \<le> j\<close>.\<close>

definition substr :: "'a list \<Rightarrow> nat \<Rightarrow> nat \<Rightarrow> 'a list" where
  "substr s i j = take (j - i) (drop i s)"

text \<open>
  A Python list comprehension \<open>[f(x) for x in xs]\<close> whose \<open>f\<close> may raise: the
  first exception, or the list of results.
\<close>

fun sum_map :: "('a \<Rightarrow> 'e + 'b) \<Rightarrow> 'a list \<Rightarrow> 'e + 'b list" where
  "sum_map f [] = Inr []"
| "sum_map f (x # xs) =
     (case f x of
        Inl e \<Rightarrow> Inl e
      | Inr y \<Rightarrow> (case sum_map f xs of Inl e \<Rightarrow> Inl e | Inr ys \<Rightarrow> Inr (y # ys)))"

subsection \<open>Prefixes that satisfy a predicate\<close>

lemma le_length_takeWhile_iff:
  "j \<le> length (takeWhile P xs) \<longleftrightarrow> j \<le> length xs \<and> (\<forall>k<j. P (xs ! k))"
proof (induction xs arbitrary: j)
  case Nil
  then show ?case by auto
next
  case (Cons x xs)
  show ?case
  proof (cases j)
    case 0
    then show ?thesis by simp
  next
    case (Suc j')
    then show ?thesis
      using Cons.IH [of j'] by (auto simp: less_Suc_eq_0_disj)
  qed
qed

lemma takeWhile_all_prefix:
  "\<forall>c\<in>set xs. P c \<Longrightarrow> takeWhile P (xs @ ys) = xs @ takeWhile P ys"
  by (induction xs) auto

subsection \<open>Substrings\<close>

lemma substr_append:
  assumes "i \<le> k" and "k \<le> j"
  shows "substr s i j = substr s i k @ substr s k j"
proof -
  have "j - i = (k - i) + (j - k)" using assms by simp
  moreover have "drop (k - i) (drop i s) = drop k s" using assms(1) by simp
  ultimately show ?thesis
    unfolding substr_def by (metis take_add)
qed

lemma length_substr: "j \<le> length s \<Longrightarrow> length (substr s i j) = j - i"
  by (simp add: substr_def)

lemma substr_Suc: "i < length s \<Longrightarrow> substr s i (Suc i) = [s ! i]"
  by (simp add: substr_def take_Suc_conv_app_nth Cons_nth_drop_Suc)

lemma nth_substr: "k < j - i \<Longrightarrow> j \<le> length s \<Longrightarrow> substr s i j ! k = s ! (i + k)"
  by (simp add: substr_def)

lemma substr_middle: "substr (u @ v @ w) (length u) (length u + length v) = v"
  by (simp add: substr_def)

lemma all_substr_iff:
  assumes "j \<le> length s"
  shows "(\<forall>c\<in>set (substr s i j). P c) \<longleftrightarrow> (\<forall>k. i \<le> k \<and> k < j \<longrightarrow> P (s ! k))"
proof
  assume all: "\<forall>c\<in>set (substr s i j). P c"
  show "\<forall>k. i \<le> k \<and> k < j \<longrightarrow> P (s ! k)"
  proof (intro allI impI)
    fix k assume k: "i \<le> k \<and> k < j"
    have ki: "k - i < j - i"
      using k by linarith
    then have "substr s i j ! (k - i) = s ! (i + (k - i))"
      using assms by (rule nth_substr)
    then have "substr s i j ! (k - i) = s ! k"
      using k by simp
    moreover have "k - i < length (substr s i j)"
      using ki assms by (simp add: length_substr)
    ultimately show "P (s ! k)"
      using all nth_mem by metis
  qed
next
  assume all: "\<forall>k. i \<le> k \<and> k < j \<longrightarrow> P (s ! k)"
  show "\<forall>c\<in>set (substr s i j). P c"
  proof
    fix c assume "c \<in> set (substr s i j)"
    then obtain m where "m < j - i" and "c = substr s i j ! m"
      using assms by (auto simp: in_set_conv_nth length_substr)
    then show "P c"
      using all assms by (simp add: nth_substr)
  qed
qed

lemma concat3_set:
  "{u @ x | u x. u \<in> A \<and> x \<in> {ws @ ds | ws ds. ws \<in> B \<and> ds \<in> C}} =
   {l @ ws @ ds | l ws ds. l \<in> A \<and> ws \<in> B \<and> ds \<in> C}"
  by blast

lemma apfst_eq_pair: "apfst f p = (a, b) \<longleftrightarrow> (\<exists>r. p = (r, b) \<and> a = f r)"
  by (cases p) auto

lemma sum_map_Inr_iff: "sum_map f xs = Inr ys \<longleftrightarrow> list_all2 (\<lambda>x y. f x = Inr y) xs ys"
proof (induction xs arbitrary: ys)
  case Nil
  then show ?case by auto
next
  case (Cons x xs)
  show ?case
    by (cases ys) (auto simp: Cons.IH [symmetric] split: sum.split)
qed

subsection \<open>Splitting a list that is framed by two others\<close>

text \<open>
  If a list whose first and last elements satisfy \<open>Q\<close> sits inside \<open>a @ c @ b\<close>, and
  no element of \<open>a\<close> or \<open>b\<close> satisfies \<open>Q\<close>, it sits inside \<open>c\<close>. This is how an
  occurrence of a keyword survives the removal of surrounding whitespace.
\<close>

lemma framed_left:
  assumes "u @ v @ w = a @ c" and "v \<noteq> []" and "Q (hd v)" and "\<forall>x\<in>set a. \<not> Q x"
  shows "\<exists>u'. u = a @ u' \<and> c = u' @ v @ w"
proof -
  have "length a \<le> length u"
  proof (rule ccontr)
    assume "\<not> length a \<le> length u"
    then have "hd v = a ! length u"
      using assms(1,2) by (auto simp: nth_append hd_conv_nth dest: arg_cong [where f = "\<lambda>xs. xs ! length u"])
    moreover have "a ! length u \<in> set a"
      using \<open>\<not> length a \<le> length u\<close> by simp
    ultimately show False using assms(3,4) by auto
  qed
  moreover have "take (length a) (u @ v @ w) = a" and "drop (length a) (u @ v @ w) = c"
    using assms(1) by simp_all
  ultimately have "take (length a) u = a" and "c = drop (length a) u @ v @ w"
    by simp_all
  then show ?thesis
    by (metis append_take_drop_id)
qed

lemma framed_right:
  assumes "u @ v @ w = c @ b" and "v \<noteq> []" and "Q (last v)" and "\<forall>x\<in>set b. \<not> Q x"
  shows "\<exists>w'. w = w' @ b \<and> c = u @ v @ w'"
proof -
  have "rev w @ rev v @ rev u = rev b @ rev c"
    using assms(1) by (metis append_assoc rev_append)
  moreover have "hd (rev v) = last v"
    using assms(2) by (simp add: hd_rev)
  ultimately obtain w'' where "rev w = rev b @ w''" and "rev c = w'' @ rev v @ rev u"
    using framed_left [of "rev w" "rev v" "rev u" "rev b" "rev c" Q] assms(2-4) by auto
  then show ?thesis
    by (intro exI [of _ "rev w''"]) (metis append_assoc rev_append rev_rev_ident)
qed

end
