(* ===== verification/PyStr.thy ===== *)
theory PyStr
  imports Prelude
begin

text \<open>
  The Python built-ins that the query gate and the handlers call, over code points below
  256: the character classes of \<open>str.isspace\<close> and of the \<open>re\<close> module's
  \<open>\w\<close> and \<open>\d\<close> for \<open>str\<close> patterns, \<open>str.strip()\<close>, \<open>str.rstrip(chars)\<close>,
  the test \<open>s.strip().upper().startswith('SELECT')\<close>, \<open>str()\<close> of an integer, and
  the JSON values that \<open>request.get_json()\<close> produces with \<open>dict.get\<close> and truth
  values on them.
\<close>

subsection \<open>Character classes\<close>

text \<open>\<open>str.isspace\<close> (and the default of \<open>strip\<close>, and \<open>\s\<close>) below 256: 9--13, 28--32, 133, 160.\<close>

definition py_isspace :: "char \<Rightarrow> bool" where
  "py_isspace c =
     (let n = (of_char c :: nat) in (9 \<le> n \<and> n \<le> 13) \<or> (28 \<le> n \<and> n \<le> 32) \<or> n = 133 \<or> n = 160)"

text \<open>
  \<open>\w\<close> of a \<open>str\<close> pattern: \<open>_\<close> and every character for which \<open>isalnum()\<close> holds;
  below 256 these are the ASCII letters and digits, \<open>\<ordfeminine>\<close> (170), \<open>\<twosuperior>\<close>, \<open>\<threesuperior>\<close> (178, 179),
  \<open>\<mu>\<close> (181), \<open>\<onesuperior>\<close>, \<open>\<ordmasculine>\<close> (185, 186), the vulgar fractions 188--190 and the Latin-1
  letters 192--214, 216--246, 248--255.
\<close>

definition py_isword :: "char \<Rightarrow> bool" where
  "py_isword c =
     (let n = (of_char c :: nat) in
        (48 \<le> n \<and> n \<le> 57) \<or> (65 \<le> n \<and> n \<le> 90) \<or> n = 95 \<or> (97 \<le> n \<and> n \<le> 122) \<or>
        n = 170 \<or> n = 178 \<or> n = 179 \<or> n = 181 \<or> n = 185 \<or> n = 186 \<or>
        (188 \<le> n \<and> n \<le> 190) \<or> (192 \<le> n \<and> n \<le> 214) \<or> (216 \<le> n \<and> n \<le> 246) \<or> 248 \<le> n)"

text \<open>\<open>\d\<close> of a \<open>str\<close> pattern (Unicode decimal digits): below 256 only 0--9.\<close>

definition py_isdecimal :: "char \<Rightarrow> bool" where
  "py_isdecimal c = (let n = (of_char c :: nat) in 48 \<le> n \<and> n \<le> 57)"

text \<open>
  Case folding of ASCII letters. Under \<open>re.IGNORECASE\<close> a pattern letter \<open>a\<close> of
  ASCII matches exactly the characters below 256 whose ASCII fold is that of \<open>a\<close>
  (the extra Unicode folds of i, s and k lie above 255).
\<close>

definition ascii_lower :: "char \<Rightarrow> char" where
  "ascii_lower c = (let n = (of_char c :: nat) in if 65 \<le> n \<and> n \<le> 90 then char_of (n + 32) else c)"

definition ascii_upper :: "char \<Rightarrow> char" where
  "ascii_upper c = (let n = (of_char c :: nat) in if 97 \<le> n \<and> n \<le> 122 then char_of (n - 32) else c)"

subsection \<open>String methods\<close>

text \<open>\<open>s.strip()\<close>: whitespace removed at both ends.\<close>

definition py_strip :: "pystr \<Rightarrow> pystr" where
  "py_strip s = rev (dropWhile py_isspace (rev (dropWhile py_isspace s)))"

text \<open>\<open>s.rstrip(chars)\<close>: every trailing character that is one of \<open>chars\<close> removed.\<close>

definition py_rstrip :: "pystr \<Rightarrow> pystr \<Rightarrow> pystr" where
  "py_rstrip chars s = rev (dropWhile (\<lambda>c. c \<in> set chars) (rev s))"

text \<open>
  \<open>s.strip().upper().startswith('SELECT')\<close>. Below 256 no character but an ASCII
  letter upper-cases to a string starting with an ASCII capital other than the letter
  \<open>\<ss>\<close>, whose \<open>'SS'\<close> cannot stand where \<open>'SELECT'\<close> has an \<open>S\<close> followed by
  \<open>E\<close>; so the test is that the first six characters fold to \<open>SELECT\<close>.
\<close>

definition starts_with_select :: "pystr \<Rightarrow> bool" where
  "starts_with_select s = (map ascii_upper (take 6 (py_strip s)) = ''SELECT'')"

subsection \<open>str() of an integer\<close>

fun nat_digits :: "nat \<Rightarrow> pystr" where
  "nat_digits n = (if n < 10 then [char_of (48 + n)] else nat_digits (n div 10) @ [char_of (48 + n mod 10)])"

definition py_str_int :: "int \<Rightarrow> pystr" where
  "py_str_int i = (if i < 0 then CHR ''-'' # nat_digits (nat (- i)) else nat_digits (nat i))"

text \<open>The reading back of a decimal numeral, as \<open>int()\<close> does on what \<open>str()\<close> prints.\<close>

definition digits_val :: "pystr \<Rightarrow> nat" where
  "digits_val ds = foldl (\<lambda>acc c. 10 * acc + (of_char c - 48)) 0 ds"

definition py_int_of_str :: "pystr \<Rightarrow> int" where
  "py_int_of_str s = (case s of c # ds \<Rightarrow> if c = CHR ''-'' then - int (digits_val ds) else int (digits_val s)
                               | [] \<Rightarrow> 0)"

subsection \<open>JSON request values\<close>

text \<open>
  What \<open>request.get_json()\<close> returns: \<open>None\<close>, booleans, integers, strings, lists and
  dicts. A dict is the list of its members in the order of the text; \<open>json\<close> keeps the
  last of two equal keys, so lookups search from the end.
\<close>

datatype json = JNull | JBool bool | JInt int | JStr pystr | JList "json list"
  | JObj "(pystr \<times> json) list"

text \<open>\<open>d.get(k, default)\<close>.\<close>

definition py_get :: "(pystr \<times> json) list \<Rightarrow> pystr \<Rightarrow> json \<Rightarrow> json" where
  "py_get d k dflt = (case map_of (rev d) k of Some v \<Rightarrow> v | None \<Rightarrow> dflt)"

text \<open>Truth value (\<open>if not x\<close>).\<close>

fun py_truthy :: "json \<Rightarrow> bool" where
  "py_truthy JNull = False"
| "py_truthy (JBool b) = b"
| "py_truthy (JInt i) = (i \<noteq> 0)"
| "py_truthy (JStr s) = (s \<noteq> [])"
| "py_truthy (JList xs) = (xs \<noteq> [])"
| "py_truthy (JObj kvs) = (kvs \<noteq> [])"

text \<open>\<open>type(x).__name__\<close>, as attribute and type errors print it.\<close>

fun py_type_name :: "json \<Rightarrow> pystr" where
  "py_type_name JNull = ''NoneType''"
| "py_type_name (JBool _) = ''bool''"
| "py_type_name (JInt _) = ''int''"
| "py_type_name (JStr _) = ''str''"
| "py_type_name (JList _) = ''list''"
| "py_type_name (JObj _) = ''dict''"

text \<open>A name in single quotes, as exception messages print it.\<close>

definition py_quote :: "pystr \<Rightarrow> pystr" where
  "py_quote s = [CHR 0x27] @ s @ [CHR 0x27]"

text \<open>The message of the \<open>AttributeError\<close> raised by \<open>x.name\<close> on a value without it.\<close>

definition attr_error :: "json \<Rightarrow> pystr \<Rightarrow> pystr" where
  "attr_error v name = py_quote (py_type_name v) @ '' object has no attribute '' @ py_quote name"

declare py_isspace_def [pystr_simps] py_isword_def [pystr_simps] py_isdecimal_def [pystr_simps]
  ascii_lower_def [pystr_simps] ascii_upper_def [pystr_simps] char_of_eq_iff [pystr_simps]

declare nat_digits.simps [simp del]

subsection \<open>Character classes\<close>

lemma py_isspace_not_word: "py_isspace c \<Longrightarrow> \<not> py_isword c"
  by (auto simp: py_isspace_def py_isword_def Let_def)

lemma py_isdecimal_word: "py_isdecimal c \<Longrightarrow> py_isword c"
  by (auto simp: py_isdecimal_def py_isword_def Let_def)

lemma of_char_ascii_lower:
  "(of_char (ascii_lower c) :: nat) =
     (if 65 \<le> (of_char c :: nat) \<and> (of_char c :: nat) \<le> 90 then of_char c + 32 else of_char c)"
  by (simp add: ascii_lower_def Let_def)

lemma of_char_ascii_upper:
  "(of_char (ascii_upper c) :: nat) =
     (if 97 \<le> (of_char c :: nat) \<and> (of_char c :: nat) \<le> 122 then of_char c - 32 else of_char c)"
proof -
  have "(of_char c :: nat) - 32 < 256"
    using nat_of_char_less_256 [of c] by linarith
  then show ?thesis by (simp add: ascii_upper_def Let_def)
qed

text \<open>For a capital ASCII letter, matching it case-insensitively is upper-casing to it.\<close>

lemma ascii_fold_iff:
  assumes "65 \<le> (of_char a :: nat)" and "(of_char a :: nat) \<le> 90"
  shows "ascii_lower c = ascii_lower a \<longleftrightarrow> ascii_upper c = a"
proof -
  have "ascii_lower c = ascii_lower a \<longleftrightarrow>
        (of_char (ascii_lower c) :: nat) = of_char (ascii_lower a)"
    by (simp only: of_char_eq_iff)
  also have "\<dots> \<longleftrightarrow> (of_char c :: nat) = of_char a \<or> (of_char c :: nat) = of_char a + 32"
    using assms by (auto simp: of_char_ascii_lower)
  also have "\<dots> \<longleftrightarrow> (of_char (ascii_upper c) :: nat) = of_char a"
    using assms by (auto simp: of_char_ascii_upper)
  also have "\<dots> \<longleftrightarrow> ascii_upper c = a"
    by (simp only: of_char_eq_iff)
  finally show ?thesis .
qed

subsection \<open>strip and rstrip\<close>

lemma dropWhile_rev_split:
  "xs = rev (dropWhile P (rev xs)) @ rev (takeWhile P (rev xs))"
  by (metis rev_append rev_rev_ident takeWhile_dropWhile_id)

lemma py_strip_prefix: "\<exists>b. dropWhile py_isspace s = py_strip s @ b \<and> (\<forall>c\<in>set b. py_isspace c)"
  unfolding py_strip_def
  by (metis dropWhile_rev_split set_rev set_takeWhileD)

lemma py_strip_frame:
  "\<exists>a b. s = a @ py_strip s @ b \<and> (\<forall>c\<in>set a. py_isspace c) \<and> (\<forall>c\<in>set b. py_isspace c)"
proof -
  obtain b where b: "dropWhile py_isspace s = py_strip s @ b" "\<forall>c\<in>set b. py_isspace c"
    using py_strip_prefix by blast
  have "s = takeWhile py_isspace s @ py_strip s @ b"
    using b(1) by (metis takeWhile_dropWhile_id)
  moreover have "\<forall>c\<in>set (takeWhile py_isspace s). py_isspace c"
    by (auto dest: set_takeWhileD)
  ultimately show ?thesis using b(2) by blast
qed

lemma py_strip_ends:
  assumes "py_strip s \<noteq> []"
  shows "\<not> py_isspace (hd (py_strip s)) \<and> \<not> py_isspace (last (py_strip s))"
proof
  obtain b where b: "dropWhile py_isspace s = py_strip s @ b"
    using py_strip_prefix by blast
  then have "hd (py_strip s) = hd (dropWhile py_isspace s)"
    using assms by simp
  moreover have "dropWhile py_isspace s \<noteq> []"
    using b assms by auto
  ultimately show "\<not> py_isspace (hd (py_strip s))"
    by (simp add: hd_dropWhile)
next
  have "last (py_strip s) = hd (dropWhile py_isspace (rev (dropWhile py_isspace s)))"
    using assms by (simp add: py_strip_def last_rev)
  moreover have "dropWhile py_isspace (rev (dropWhile py_isspace s)) \<noteq> []"
    using assms by (auto simp: py_strip_def)
  ultimately show "\<not> py_isspace (last (py_strip s))"
    by (simp add: hd_dropWhile)
qed

lemma py_strip_framed:
  assumes "\<forall>x\<in>set a. py_isspace x" and "\<forall>x\<in>set b. py_isspace x"
    and "c = [] \<or> (\<not> py_isspace (hd c) \<and> \<not> py_isspace (last c))"
  shows "py_strip (a @ c @ b) = c"
proof (cases "c = []")
  case True
  have "\<forall>x\<in>set (a @ b). py_isspace x"
    using assms(1,2) by auto
  then have nil: "dropWhile py_isspace (a @ b) = []"
    by (simp only: dropWhile_eq_Nil_conv)
  show ?thesis
    unfolding py_strip_def True append_Nil nil by simp
next
  case False
  then have d1: "dropWhile py_isspace (a @ c @ b) = c @ b"
    using assms(1,3) by (auto simp: dropWhile_eq_self_iff)
  have "dropWhile py_isspace (rev c) = rev c"
    using False assms(3) by (auto simp: dropWhile_eq_self_iff hd_rev)
  then have d2: "dropWhile py_isspace (rev b @ rev c) = rev c"
    using assms(2) by (metis dropWhile_append2 set_rev)
  show ?thesis
    unfolding py_strip_def d1 rev_append d2 by simp
qed

lemma py_strip_idem [pystr_simps]: "py_strip (py_strip s) = py_strip s"
  using py_strip_framed [of "[]" "[]" "py_strip s"] py_strip_ends [of s] by auto

lemma py_strip_set: "set (py_strip s) \<subseteq> set s"
  by (metis py_strip_frame set_append Un_upper1 Un_upper2 subset_trans)

lemma py_rstrip_frame:
  "\<exists>b. s = py_rstrip cs s @ b \<and> (\<forall>c\<in>set b. c \<in> set cs)"
  unfolding py_rstrip_def
  by (metis dropWhile_rev_split set_rev set_takeWhileD)

lemma py_rstrip_last:
  "py_rstrip cs s \<noteq> [] \<Longrightarrow> last (py_rstrip cs s) \<notin> set cs"
  unfolding py_rstrip_def
  by (metis (mono_tags, lifting) dropWhile_eq_Nil_conv hd_dropWhile last_rev rev_is_Nil_conv)

lemma py_rstrip_none:
  assumes "\<forall>c\<in>set cs. c \<notin> set s"
  shows "py_rstrip cs s = s"
proof (cases "s = []")
  case False
  then have "last s \<notin> set cs"
    using assms last_in_set by blast
  then have "dropWhile (\<lambda>c. c \<in> set cs) (rev s) = rev s"
    using False by (simp add: dropWhile_eq_self_iff hd_rev)
  then show ?thesis by (simp add: py_rstrip_def)
qed (simp add: py_rstrip_def)

subsection \<open>str() of an integer and back\<close>

lemma nat_digits_decimal: "nat_digits n \<noteq> [] \<and> (\<forall>c\<in>set (nat_digits n). py_isdecimal c)"
proof (induction n rule: nat_digits.induct)
  case (1 n)
  then show ?case
    by (auto simp: nat_digits.simps [of n] py_isdecimal_def Let_def)
qed

lemma digits_val_snoc: "digits_val (xs @ [c]) = 10 * digits_val xs + (of_char c - 48)"
  by (simp add: digits_val_def)

lemma digits_val_nat_digits: "digits_val (nat_digits n) = n"
proof (induction n rule: nat_digits.induct)
  case (1 n)
  show ?case
  proof (cases "n < 10")
    case True
    then show ?thesis by (subst nat_digits.simps) (simp add: digits_val_def)
  next
    case False
    then have "digits_val (nat_digits n) = 10 * (n div 10) + n mod 10"
      using "1.IH" by (subst nat_digits.simps) (simp add: digits_val_snoc)
    then show ?thesis by simp
  qed
qed

lemma py_int_of_str_nat_digits: "py_int_of_str (nat_digits n) = int n"
proof -
  obtain c ds where cd: "nat_digits n = c # ds" and "py_isdecimal c"
    using nat_digits_decimal [of n] by (cases "nat_digits n") auto
  then have "c \<noteq> CHR ''-''" by (auto simp: py_isdecimal_def)
  then show ?thesis
    using cd digits_val_nat_digits [of n] by (simp add: py_int_of_str_def)
qed

end
