(* ===== verification/Regex.thy ===== *)
theory Regex
  imports PyStr
begin

text \<open>
  The part of Python's \<open>re\<close> engine (\<open>sre\<close>) that the gate's two patterns use:
  word boundaries \<open>\b\<close>, character classes (literals under \<open>re.I\<close>, \<open>\s\<close>, \<open>\d\<close>),
  sequence, alternation and the greedy one-or-more repetition of a class. There are
  three readings of a pattern:
  \<^item> \<open>rx_match s r i j\<close>, an inductive relation: \<open>r\<close> matches \<open>s\<close> from position
    \<open>i\<close> to \<open>j\<close> (the reference semantics);
  \<^item> \<open>rx_ends s r i\<close>, the executable backtracking matcher: the end positions reachable
    from \<open>i\<close>, in the order in which \<open>sre\<close> tries them (left alternative first, longest
    repetition first), and \<open>re_search\<close>, which tries the start positions
    \<open>0 .. len(s)\<close> in turn as \<open>re.search\<close> does and reports the first match;
  \<^item> \<open>lang r\<close>, the set of strings a boundary-free pattern denotes, and
    \<open>occurs_bounded\<close>, an occurrence as a whole word.
  The lemmas show the three agree.
\<close>

datatype rx = Eps | Bnd | Cls "char \<Rightarrow> bool" | Seq rx rx | Alt rx rx | Rep1 "char \<Rightarrow> bool"

text \<open>
  \<open>\b\<close> for \<open>str\<close> patterns (\<open>SRE_AT_UNI_BOUNDARY\<close>): never in the empty string;
  otherwise exactly one of the characters before and at the position is a word character,
  a position outside the string counting as a non-word character.
\<close>

definition word_boundary :: "pystr \<Rightarrow> nat \<Rightarrow> bool" where
  "word_boundary s i =
     (s \<noteq> [] \<and> ((0 < i \<and> py_isword (s ! (i - 1))) \<noteq> (i < length s \<and> py_isword (s ! i))))"

inductive rx_match :: "pystr \<Rightarrow> rx \<Rightarrow> nat \<Rightarrow> nat \<Rightarrow> bool" for s :: pystr where
  m_eps: "i \<le> length s \<Longrightarrow> rx_match s Eps i i"
| m_bnd: "i \<le> length s \<Longrightarrow> word_boundary s i \<Longrightarrow> rx_match s Bnd i i"
| m_cls: "i < length s \<Longrightarrow> P (s ! i) \<Longrightarrow> rx_match s (Cls P) i (Suc i)"
| m_seq: "rx_match s r1 i j \<Longrightarrow> rx_match s r2 j k \<Longrightarrow> rx_match s (Seq r1 r2) i k"
| m_alt1: "rx_match s r1 i j \<Longrightarrow> rx_match s (Alt r1 r2) i j"
| m_alt2: "rx_match s r2 i j \<Longrightarrow> rx_match s (Alt r1 r2) i j"
| m_rep1: "i < length s \<Longrightarrow> P (s ! i) \<Longrightarrow> rx_match s (Rep1 P) i (Suc i)"
| m_rep_more: "i < length s \<Longrightarrow> P (s ! i) \<Longrightarrow> rx_match s (Rep1 P) (Suc i) j \<Longrightarrow>
    rx_match s (Rep1 P) i j"

fun rx_ends :: "pystr \<Rightarrow> rx \<Rightarrow> nat \<Rightarrow> nat list" where
  "rx_ends s Eps i = (if i \<le> length s then [i] else [])"
| "rx_ends s Bnd i = (if i \<le> length s \<and> word_boundary s i then [i] else [])"
| "rx_ends s (Cls P) i = (if i < length s \<and> P (s ! i) then [Suc i] else [])"
| "rx_ends s (Seq r1 r2) i = concat (map (rx_ends s r2) (rx_ends s r1 i))"
| "rx_ends s (Alt r1 r2) i = rx_ends s r1 i @ rx_ends s r2 i"
| "rx_ends s (Rep1 P) i = rev (map (\<lambda>d. i + d) [1..<Suc (length (takeWhile P (drop i s)))])"

text \<open>\<open>re.search(pattern, s)\<close>: the span of the first match, \<open>None\<close> when there is none.\<close>

definition re_search :: "rx \<Rightarrow> pystr \<Rightarrow> (nat \<times> nat) option" where
  "re_search r s =
     (case List.find (\<lambda>i. rx_ends s r i \<noteq> []) [0..<Suc (length s)] of
        None \<Rightarrow> None
      | Some i \<Rightarrow> Some (i, hd (rx_ends s r i)))"

text \<open>Patterns without \<open>\b\<close>, and the strings they denote.\<close>

fun bnd_free :: "rx \<Rightarrow> bool" where
  "bnd_free Bnd = False"
| "bnd_free (Seq r1 r2) = (bnd_free r1 \<and> bnd_free r2)"
| "bnd_free (Alt r1 r2) = (bnd_free r1 \<and> bnd_free r2)"
| "bnd_free _ = True"

text \<open>
  \<open>lang Bnd\<close> is the empty word: a boundary consumes nothing, and the condition it puts on
  the context is what \<open>bnd_free\<close> excludes from the lemmas about \<open>lang\<close>.
\<close>

fun lang :: "rx \<Rightarrow> pystr set" where
  "lang Eps = {[]}"
| "lang Bnd = {[]}"
| "lang (Cls P) = {[c] | c. P c}"
| "lang (Seq r1 r2) = {u @ v | u v. u \<in> lang r1 \<and> v \<in> lang r2}"
| "lang (Alt r1 r2) = lang r1 \<union> lang r2"
| "lang (Rep1 P) = {v. v \<noteq> [] \<and> (\<forall>c\<in>set v. P c)}"

text \<open>An occurrence of a word of \<open>L\<close> in \<open>s\<close> that is not part of a longer word.\<close>

definition occurs_bounded :: "pystr set \<Rightarrow> pystr \<Rightarrow> bool" where
  "occurs_bounded L s =
     (\<exists>u v w. s = u @ v @ w \<and> v \<in> L \<and> (u = [] \<or> \<not> py_isword (last u)) \<and>
               (w = [] \<or> \<not> py_isword (hd w)))"

definition word_framed :: "pystr set \<Rightarrow> bool" where
  "word_framed L = (\<forall>v\<in>L. v \<noteq> [] \<and> py_isword (hd v) \<and> py_isword (last v))"

inductive_cases rx_match_elims:
  "rx_match s Eps i j"
  "rx_match s Bnd i j"
  "rx_match s (Cls P) i j"
  "rx_match s (Seq r1 r2) i j"
  "rx_match s (Alt r1 r2) i j"
  "rx_match s (Rep1 P) i j"

lemma rx_match_le: "rx_match s r i j \<Longrightarrow> i \<le> j \<and> j \<le> length s"
  by (induction rule: rx_match.induct) auto

subsection \<open>Repetition\<close>

lemma all_shift_iff:
  fixes i j :: nat
  shows "(\<forall>m<j - i. Q (i + m)) \<longleftrightarrow> (\<forall>k. i \<le> k \<and> k < j \<longrightarrow> Q k)"
proof
  assume h: "\<forall>m<j - i. Q (i + m)"
  show "\<forall>k. i \<le> k \<and> k < j \<longrightarrow> Q k"
  proof (intro allI impI)
    fix k assume k: "i \<le> k \<and> k < j"
    then have "k - i < j - i" by arith
    then have "Q (i + (k - i))" using h by blast
    then show "Q k" using k by simp
  qed
next
  assume h: "\<forall>k. i \<le> k \<and> k < j \<longrightarrow> Q k"
  show "\<forall>m<j - i. Q (i + m)"
  proof (intro allI impI)
    fix m assume "m < j - i"
    then have "i \<le> i + m \<and> i + m < j" by arith
    then show "Q (i + m)" using h by blast
  qed
qed

lemma rep1_match_iff:
  "rx_match s (Rep1 P) i j \<longleftrightarrow> i < j \<and> j \<le> length s \<and> (\<forall>k. i \<le> k \<and> k < j \<longrightarrow> P (s ! k))"
proof
  show "rx_match s (Rep1 P) i j \<Longrightarrow> i < j \<and> j \<le> length s \<and> (\<forall>k. i \<le> k \<and> k < j \<longrightarrow> P (s ! k))"
  proof (induction "Rep1 P" i j rule: rx_match.induct)
    case (m_rep1 i)
    then show ?case by (auto simp: le_less_Suc_eq)
  next
    case (m_rep_more i j)
    have "\<forall>k. i \<le> k \<and> k < j \<longrightarrow> P (s ! k)"
    proof (intro allI impI)
      fix k assume "i \<le> k \<and> k < j"
      then show "P (s ! k)" using m_rep_more by (cases "k = i") auto
    qed
    with m_rep_more show ?case by auto
  qed
next
  show "i < j \<and> j \<le> length s \<and> (\<forall>k. i \<le> k \<and> k < j \<longrightarrow> P (s ! k)) \<Longrightarrow> rx_match s (Rep1 P) i j"
  proof (induction "j - i" arbitrary: i)
    case 0
    then show ?case by simp
  next
    case (Suc n)
    show ?case
    proof (cases "j = Suc i")
      case True
      with Suc.prems show ?thesis by (auto intro: m_rep1)
    next
      case False
      with Suc.prems have "rx_match s (Rep1 P) (Suc i) j"
        using Suc.hyps(1) [of "Suc i"] Suc.hyps(2) by auto
      with Suc.prems show ?thesis by (auto intro: m_rep_more)
    qed
  qed
qed

lemma rx_ends_Rep1_iff:
  "j \<in> set (rx_ends s (Rep1 P) i) \<longleftrightarrow> i < j \<and> j \<le> length s \<and> (\<forall>k. i \<le> k \<and> k < j \<longrightarrow> P (s ! k))"
proof -
  have "j \<in> set (rx_ends s (Rep1 P) i) \<longleftrightarrow> i < j \<and> j - i \<le> length (takeWhile P (drop i s))"
    by (auto simp: image_iff intro!: exI [of _ "j - i"])
  also have "\<dots> \<longleftrightarrow> i < j \<and> j \<le> length s \<and> (\<forall>m<j - i. P (s ! (i + m)))"
    by (auto simp: le_length_takeWhile_iff)
  also have "\<dots> \<longleftrightarrow> i < j \<and> j \<le> length s \<and> (\<forall>k. i \<le> k \<and> k < j \<longrightarrow> P (s ! k))"
    using all_shift_iff [of j i "\<lambda>k. P (s ! k)"] by simp
  finally show ?thesis .
qed

subsection \<open>The matcher computes the reference semantics\<close>

lemma rx_ends_iff: "j \<in> set (rx_ends s r i) \<longleftrightarrow> rx_match s r i j"
proof (induction r arbitrary: i j)
  case Eps
  then show ?case by (auto intro: m_eps elim: rx_match_elims)
next
  case Bnd
  then show ?case by (auto intro: m_bnd elim: rx_match_elims)
next
  case (Cls P)
  then show ?case by (auto intro: m_cls elim: rx_match_elims)
next
  case (Seq r1 r2)
  then show ?case by (auto intro: m_seq elim!: rx_match_elims)
next
  case (Alt r1 r2)
  then show ?case by (auto intro: m_alt1 m_alt2 elim!: rx_match_elims)
next
  case (Rep1 P)
  then show ?case by (simp only: rx_ends_Rep1_iff rep1_match_iff)
qed

theorem re_search_Some:
  assumes "re_search r s = Some (i, j)"
  shows "rx_match s r i j \<and> (\<forall>i' < i. \<forall>j'. \<not> rx_match s r i' j')"
proof -
  obtain n where n: "n < Suc (length s)" "rx_ends s r n \<noteq> []" "i = n" "j = hd (rx_ends s r n)"
    and first: "\<forall>m<n. rx_ends s r m = []"
    using assms by (auto simp: re_search_def find_Some_iff simp del: upt_Suc split: option.splits)
  then have "j \<in> set (rx_ends s r i)" by simp
  then have "rx_match s r i j" by (simp add: rx_ends_iff)
  moreover have "\<forall>i' < i. \<forall>j'. \<not> rx_match s r i' j'"
    using first n(3) by (auto simp flip: rx_ends_iff)
  ultimately show ?thesis ..
qed

theorem re_search_None_iff: "re_search r s = None \<longleftrightarrow> (\<forall>i j. \<not> rx_match s r i j)"
proof
  assume "re_search r s = None"
  then have none: "\<forall>i < Suc (length s). rx_ends s r i = []"
    by (auto simp: re_search_def find_None_iff simp del: upt_Suc split: option.splits)
  show "\<forall>i j. \<not> rx_match s r i j"
  proof (intro allI notI)
    fix i j assume m: "rx_match s r i j"
    then have "i < Suc (length s)" using rx_match_le by fastforce
    moreover have "j \<in> set (rx_ends s r i)" using m by (simp add: rx_ends_iff)
    ultimately show False using none by auto
  qed
next
  assume "\<forall>i j. \<not> rx_match s r i j"
  then have "\<forall>i. rx_ends s r i = []"
    by (metis hd_in_set rx_ends_iff)
  then have "List.find (\<lambda>i. rx_ends s r i \<noteq> []) [0..<Suc (length s)] = None"
    by (simp add: find_None_iff del: upt_Suc)
  then show "re_search r s = None"
    by (simp add: re_search_def del: upt_Suc)
qed

subsection \<open>Boundary-free patterns match the strings of their language\<close>

lemma rx_match_lang:
  "bnd_free r \<Longrightarrow> rx_match s r i j \<longleftrightarrow> i \<le> j \<and> j \<le> length s \<and> substr s i j \<in> lang r"
proof (induction r arbitrary: i j)
  case Eps
  have "i \<le> j \<and> j \<le> length s \<and> substr s i j \<in> lang Eps \<longleftrightarrow> i = j \<and> j \<le> length s"
    by (auto simp: substr_def)
  then show ?case
    by (auto intro: m_eps elim: rx_match_elims)
next
  case Bnd
  then show ?case by simp
next
  case (Cls P)
  show ?case
  proof
    assume "rx_match s (Cls P) i j"
    then show "i \<le> j \<and> j \<le> length s \<and> substr s i j \<in> lang (Cls P)"
      by (auto elim: rx_match_elims simp: substr_Suc)
  next
    assume h: "i \<le> j \<and> j \<le> length s \<and> substr s i j \<in> lang (Cls P)"
    then obtain c where c: "substr s i j = [c]" "P c" by auto
    then have "j = Suc i" using h length_substr [of j s i] by simp
    with c h show "rx_match s (Cls P) i j"
      by (auto intro: m_cls simp: substr_Suc)
  qed
next
  case (Seq r1 r2)
  then have IH1: "\<And>i j. rx_match s r1 i j \<longleftrightarrow> i \<le> j \<and> j \<le> length s \<and> substr s i j \<in> lang r1"
    and IH2: "\<And>i j. rx_match s r2 i j \<longleftrightarrow> i \<le> j \<and> j \<le> length s \<and> substr s i j \<in> lang r2"
    by simp_all
  show ?case
  proof
    assume "rx_match s (Seq r1 r2) i j"
    then obtain k where "rx_match s r1 i k" "rx_match s r2 k j"
      by (auto elim: rx_match_elims)
    then show "i \<le> j \<and> j \<le> length s \<and> substr s i j \<in> lang (Seq r1 r2)"
      using IH1 IH2 substr_append [of i k j s] by fastforce
  next
    assume h: "i \<le> j \<and> j \<le> length s \<and> substr s i j \<in> lang (Seq r1 r2)"
    then obtain u v where uv: "substr s i j = u @ v" "u \<in> lang r1" "v \<in> lang r2" by auto
    define k where "k = i + length u"
    have "length u + length v = j - i"
      using uv(1) h length_substr [of j s i] by (metis length_append)
    then have k: "i \<le> k" "k \<le> j" using h by (auto simp: k_def)
    then have "substr s i k @ substr s k j = u @ v"
      using uv(1) substr_append [of i k j s] by simp
    moreover have "length (substr s i k) = length u"
      using k h by (simp add: length_substr k_def)
    ultimately have "substr s i k = u" "substr s k j = v" by auto
    then show "rx_match s (Seq r1 r2) i j"
      using IH1 [of i k] IH2 [of k j] k h uv by (auto intro: m_seq)
  qed
next
  case (Alt r1 r2)
  then show ?case by (auto intro: m_alt1 m_alt2 elim!: rx_match_elims)
next
  case (Rep1 P)
  show ?case
  proof
    assume "rx_match s (Rep1 P) i j"
    then have h: "i < j" "j \<le> length s" "\<forall>k. i \<le> k \<and> k < j \<longrightarrow> P (s ! k)"
      by (simp_all add: rep1_match_iff)
    then have "\<forall>c\<in>set (substr s i j). P c" by (simp add: all_substr_iff)
    moreover have "substr s i j \<noteq> []" using h by (auto simp: substr_def)
    ultimately show "i \<le> j \<and> j \<le> length s \<and> substr s i j \<in> lang (Rep1 P)"
      using h by simp
  next
    assume h: "i \<le> j \<and> j \<le> length s \<and> substr s i j \<in> lang (Rep1 P)"
    then have "i < j" by (cases "i < j") (auto simp: substr_def)
    moreover have "\<forall>k. i \<le> k \<and> k < j \<longrightarrow> P (s ! k)"
      using h all_substr_iff [of j s i P] by simp
    ultimately show "rx_match s (Rep1 P) i j"
      using h by (simp add: rep1_match_iff)
  qed
qed

subsection \<open>Whole-word occurrences\<close>

lemma word_boundary_before:
  assumes "i < length s" and "py_isword (s ! i)"
  shows "word_boundary s i \<longleftrightarrow> take i s = [] \<or> \<not> py_isword (last (take i s))"
proof (cases i)
  case 0
  with assms show ?thesis by (auto simp: word_boundary_def)
next
  case (Suc i')
  then have "last (take i s) = s ! (i - 1)"
    using assms(1) by (simp add: take_Suc_conv_app_nth)
  with Suc assms show ?thesis by (auto simp: word_boundary_def)
qed

lemma word_boundary_after:
  assumes "0 < j" and "j \<le> length s" and "py_isword (s ! (j - 1))"
  shows "word_boundary s j \<longleftrightarrow> drop j s = [] \<or> \<not> py_isword (hd (drop j s))"
proof (cases "j < length s")
  case True
  then have "hd (drop j s) = s ! j" by (simp add: hd_drop_conv_nth)
  with True assms show ?thesis by (auto simp: word_boundary_def)
next
  case False
  with assms show ?thesis by (auto simp: word_boundary_def)
qed

lemma bounded_match_iff:
  assumes "bnd_free r" and "word_framed (lang r)"
  shows "(\<exists>i j. rx_match s (Seq Bnd (Seq r Bnd)) i j) \<longleftrightarrow> occurs_bounded (lang r) s"
proof
  assume "\<exists>i j. rx_match s (Seq Bnd (Seq r Bnd)) i j"
  then obtain i j where bi: "word_boundary s i" and m: "rx_match s r i j" and bj: "word_boundary s j"
    by (auto elim!: rx_match_elims)
  then have ij: "i \<le> j" "j \<le> length s" and v: "substr s i j \<in> lang r"
    using rx_match_lang [OF assms(1)] by auto
  then have ne: "substr s i j \<noteq> []" and hw: "py_isword (hd (substr s i j))"
    and lw: "py_isword (last (substr s i j))"
    using assms(2) by (auto simp: word_framed_def)
  then have lt: "i < j" using ij by (auto simp: substr_def)
  have "hd (substr s i j) = s ! i"
    using lt ij by (simp add: hd_conv_nth nth_substr ne)
  moreover have "last (substr s i j) = s ! (j - 1)"
    using lt ij by (simp add: last_conv_nth nth_substr ne length_substr)
  ultimately have "take i s = [] \<or> \<not> py_isword (last (take i s))"
    and "drop j s = [] \<or> \<not> py_isword (hd (drop j s))"
    using bi bj hw lw lt ij word_boundary_before [of i s] word_boundary_after [of j s] by auto
  moreover have "s = take i s @ substr s i j @ drop j s"
  proof -
    have "drop (j - i) (drop i s) = drop j s" using ij by simp
    then have "drop i s = substr s i j @ drop j s"
      unfolding substr_def using append_take_drop_id [of "j - i" "drop i s"] by simp
    then show ?thesis by (metis append_take_drop_id)
  qed
  ultimately show "occurs_bounded (lang r) s"
    unfolding occurs_bounded_def using v by blast
next
  assume "occurs_bounded (lang r) s"
  then obtain u v w where s: "s = u @ v @ w" and v: "v \<in> lang r"
    and bu: "u = [] \<or> \<not> py_isword (last u)" and bw: "w = [] \<or> \<not> py_isword (hd w)"
    unfolding occurs_bounded_def by blast
  then have ne: "v \<noteq> []" and hw: "py_isword (hd v)" and lw: "py_isword (last v)"
    using assms(2) by (auto simp: word_framed_def)
  define i where "i = length u"
  define j where "j = length u + length v"
  have sub: "substr s i j = v" by (simp add: s i_def j_def substr_middle)
  have "s ! i = hd v" using ne by (simp add: s i_def nth_append hd_conv_nth)
  moreover have "s ! (j - 1) = last v"
  proof -
    have "0 < length v" using ne by simp
    then have "j - 1 = length u + (length v - 1)" unfolding j_def by arith
    then have "s ! (j - 1) = (v @ w) ! (length v - 1)"
      by (simp only: s nth_append_length_plus)
    also have "\<dots> = last v" using ne by (simp add: nth_append last_conv_nth)
    finally show ?thesis .
  qed
  moreover have "take i s = u" and "drop j s = w" by (simp_all add: s i_def j_def)
  moreover have "i < length s" "0 < j" "j \<le> length s" using ne by (simp_all add: s i_def j_def)
  ultimately have "word_boundary s i" and "word_boundary s j"
    using bu bw hw lw word_boundary_before [of i s] word_boundary_after [of j s] by auto
  moreover have "rx_match s r i j"
    using rx_match_lang [OF assms(1)] sub v \<open>j \<le> length s\<close> by (simp add: i_def j_def)
  ultimately have "rx_match s (Seq Bnd (Seq r Bnd)) i j"
    using \<open>j \<le> length s\<close> \<open>i < length s\<close> by (auto intro!: m_seq m_bnd)
  then show "\<exists>i j. rx_match s (Seq Bnd (Seq r Bnd)) i j" by blast
qed

text \<open>\<open>re.search(r'\b(...)\b', s)\<close> finds a match exactly when a word of the group occurs whole.\<close>

theorem bounded_search_iff:
  assumes "bnd_free r" and "word_framed (lang r)"
  shows "re_search (Seq Bnd (Seq r Bnd)) s \<noteq> None \<longleftrightarrow> occurs_bounded (lang r) s"
proof -
  have "re_search (Seq Bnd (Seq r Bnd)) s \<noteq> None \<longleftrightarrow> (\<exists>i j. rx_match s (Seq Bnd (Seq r Bnd)) i j)"
    by (simp only: re_search_None_iff) simp
  also have "\<dots> \<longleftrightarrow> occurs_bounded (lang r) s"
    by (rule bounded_match_iff [OF assms])
  finally show ?thesis .
qed

text \<open>Non-word characters around a string do not change its whole-word occurrences.\<close>

lemma occurs_bounded_framed:
  assumes "word_framed L" and "\<forall>x\<in>set a. \<not> py_isword x" and "\<forall>x\<in>set b. \<not> py_isword x"
  shows "occurs_bounded L (a @ c @ b) \<longleftrightarrow> occurs_bounded L c"
proof
  assume "occurs_bounded L (a @ c @ b)"
  then obtain u v w where eq0: "a @ c @ b = u @ v @ w" and v: "v \<in> L"
    and bu: "u = [] \<or> \<not> py_isword (last u)" and bw: "w = [] \<or> \<not> py_isword (hd w)"
    unfolding occurs_bounded_def by blast
  then have eq: "u @ v @ w = a @ c @ b" by simp
  have ne: "v \<noteq> []" "py_isword (hd v)" "py_isword (last v)"
    using v assms(1) by (auto simp: word_framed_def)
  obtain u' where u: "u = a @ u'" and cb: "c @ b = u' @ v @ w"
    using framed_left [OF eq ne(1), of py_isword] ne(2) assms(2) by auto
  obtain w' where w: "w = w' @ b" and c: "c = u' @ v @ w'"
    using framed_right [of u' v w c b py_isword] cb ne(1,3) assms(3) by auto
  have "u' = [] \<or> \<not> py_isword (last u')" using bu u by auto
  moreover have "w' = [] \<or> \<not> py_isword (hd w')" using bw w by auto
  ultimately show "occurs_bounded L c"
    unfolding occurs_bounded_def using c v by blast
next
  assume "occurs_bounded L c"
  then obtain u v w where c: "c = u @ v @ w" and v: "v \<in> L"
    and bu: "u = [] \<or> \<not> py_isword (last u)" and bw: "w = [] \<or> \<not> py_isword (hd w)"
    unfolding occurs_bounded_def by blast
  have "a @ u = [] \<or> \<not> py_isword (last (a @ u))"
    using bu assms(2) by (cases "u = []") (auto simp: last_append)
  moreover have "w @ b = [] \<or> \<not> py_isword (hd (w @ b))"
    using bw assms(3) by (cases "w = []") (auto simp: hd_append)
  moreover have "a @ c @ b = (a @ u) @ v @ (w @ b)" using c by simp
  ultimately show "occurs_bounded L (a @ c @ b)"
    unfolding occurs_bounded_def using v by blast
qed

lemma occurs_bounded_strip:
  assumes "word_framed L"
  shows "occurs_bounded L (py_strip s) \<longleftrightarrow> occurs_bounded L s"
proof -
  obtain a b where s: "s = a @ py_strip s @ b" and a: "\<forall>c\<in>set a. py_isspace c"
    and b: "\<forall>c\<in>set b. py_isspace c"
    using py_strip_frame by blast
  have "\<forall>x\<in>set a. \<not> py_isword x" "\<forall>x\<in>set b. \<not> py_isword x"
    using a b py_isspace_not_word by auto
  then have "occurs_bounded L (a @ py_strip s @ b) \<longleftrightarrow> occurs_bounded L (py_strip s)"
    using occurs_bounded_framed [OF assms] by blast
  then show ?thesis using s by simp
qed

text \<open>A word made of word characters cannot straddle a non-word character.\<close>

lemma occurs_bounded_split:
  assumes L: "\<forall>v\<in>L. v \<noteq> [] \<and> (\<forall>c\<in>set v. py_isword c)" and x: "\<not> py_isword x"
    and occ: "occurs_bounded L (c @ x # d)"
  shows "occurs_bounded L c \<or> occurs_bounded L d"
proof -
  obtain u v w where eq: "c @ x # d = u @ v @ w" and v: "v \<in> L"
    and bu: "u = [] \<or> \<not> py_isword (last u)" and bw: "w = [] \<or> \<not> py_isword (hd w)"
    using occ unfolding occurs_bounded_def by blast
  have vw: "\<forall>c\<in>set v. py_isword c" using v L by blast
  define n where "n = length c"
  consider (left) "length u + length v \<le> n" | (right) "n < length u"
    | (mid) "length u \<le> n" "n < length u + length v" by linarith
  then show ?thesis
  proof cases
    case left
    define w' where "w' = take (n - length u - length v) w"
    have "c = take n (u @ v @ w)" using eq by (metis n_def append_eq_conv_conj)
    then have c: "c = u @ v @ w'" using left by (simp add: w'_def)
    have "x # d = drop n (u @ v @ w)" using eq by (metis n_def append_eq_conv_conj)
    then have "x # d = drop (n - length u - length v) w" using left by simp
    then have w: "w = w' @ x # d" by (metis append_take_drop_id w'_def)
    have "w' = [] \<or> \<not> py_isword (hd w')" using bw w by (cases w') auto
    then show ?thesis unfolding occurs_bounded_def using c v bu by blast
  next
    case right
    have "x # d = drop n (u @ v @ w)" using eq by (metis n_def append_eq_conv_conj)
    then have xd: "x # d = drop n u @ v @ w" using right by simp
    obtain u' where du: "drop n u = x # u'" using right xd by (cases "drop n u") auto
    then have d: "d = u' @ v @ w" using xd by simp
    have "last u = last (drop n u)" using right by (simp add: last_drop)
    then have "u' = [] \<or> \<not> py_isword (last u')" using bu du by (cases "u' = []") auto
    then show ?thesis unfolding occurs_bounded_def using d v bw by blast
  next
    case mid
    have lt: "n - length u < length v" using mid by linarith
    have "(u @ v @ w) ! n = (c @ x # d) ! n" using eq by simp
    then have "v ! (n - length u) = x" using mid lt by (simp add: nth_append n_def)
    moreover have "v ! (n - length u) \<in> set v" using lt by simp
    ultimately show ?thesis using vw x by auto
  qed
qed

end
