(* ===== verification/Gate.thy ===== *)
theory Gate
  imports Regex
begin

text \<open>
  The safe-mode query gate: the \<open>if safe:\<close> block of \<open>run_sql\<close>
  (\<open>src/super_simple_app.py\<close>, lines 31--38), which the dead body under
  \<open>get_db_connection\<close> in \<open>src/simple_app.py\<close> (lines 40--63) repeats word for word.
  The input is stripped of whitespace and of trailing semicolons; a whole-word dangerous
  keyword rejects it, then a remaining semicolon; without a \<open>LIMIT n\<close> clause
  \<open> LIMIT 100\<close> is appended. The abstract contract \<open>gate_spec\<close> states the same
  decision with whole-word occurrences in place of the two regular expressions.
\<close>

subsection \<open>The two patterns\<close>

text \<open>A pattern letter under \<open>re.IGNORECASE\<close>, and a literal word made of such letters.\<close>

definition ci_char :: "char \<Rightarrow> char \<Rightarrow> bool" where
  "ci_char a c = (ascii_lower c = ascii_lower a)"

fun ci_lit :: "pystr \<Rightarrow> rx" where
  "ci_lit [] = Eps"
| "ci_lit (a # as) = Seq (Cls (ci_char a)) (ci_lit as)"

definition dangerous_keywords :: "pystr list" where
  "dangerous_keywords = [''INSERT'', ''UPDATE'', ''DELETE'', ''DROP'', ''TRUNCATE'', ''ALTER'', ''CREATE'', ''REPLACE'']"

text \<open>The group \<open>(INSERT|UPDATE|DELETE|DROP|TRUNCATE|ALTER|CREATE|REPLACE)\<close>.\<close>

definition dangerous_group :: rx where
  "dangerous_group =
     Alt (ci_lit ''INSERT'') (Alt (ci_lit ''UPDATE'') (Alt (ci_lit ''DELETE'') (Alt (ci_lit ''DROP'')
       (Alt (ci_lit ''TRUNCATE'') (Alt (ci_lit ''ALTER'') (Alt (ci_lit ''CREATE'') (ci_lit ''REPLACE'')))))))"

text \<open>\<open>r"\b(INSERT|...|REPLACE)\b"\<close> with \<open>re.I\<close>.\<close>

definition dangerous_rx :: rx where
  "dangerous_rx = Seq Bnd (Seq dangerous_group Bnd)"

text \<open>\<open>limit\s+\d+\<close>, and \<open>r"\blimit\s+\d+\b"\<close> with \<open>re.I\<close>.\<close>

definition limit_core :: rx where
  "limit_core = Seq (ci_lit ''limit'') (Seq (Rep1 py_isspace) (Rep1 py_isdecimal))"

definition limit_rx :: rx where
  "limit_rx = Seq Bnd (Seq limit_core Bnd)"

subsection \<open>The gate\<close>

datatype reject_reason = DangerousKeyword | MultipleStatements

datatype gate_decision = Allow pystr | Reject reject_reason

text \<open>\<open>sql.strip().rstrip(";")\<close>.\<close>

definition safe_clean :: "pystr \<Rightarrow> pystr" where
  "safe_clean sql = py_rstrip '';'' (py_strip sql)"

definition safe_gate :: "pystr \<Rightarrow> gate_decision" where
  "safe_gate sql =
     (let sql = safe_clean sql in
      if re_search dangerous_rx sql \<noteq> None then Reject DangerousKeyword
      else if CHR '';'' \<in> set sql then Reject MultipleStatements
      else if re_search limit_rx sql = None then Allow (sql @ '' LIMIT 100'')
      else Allow sql)"

text \<open>The gate as the spec's \<open>evaluate(rawSql, safeMode)\<close>: outside safe mode the text passes.\<close>

definition evaluate :: "pystr \<Rightarrow> bool \<Rightarrow> gate_decision" where
  "evaluate sql safe = (if safe then safe_gate sql else Allow sql)"

subsection \<open>The contract\<close>

definition has_dangerous_keyword :: "pystr \<Rightarrow> bool" where
  "has_dangerous_keyword s = occurs_bounded {v. map ascii_upper v \<in> set dangerous_keywords} s"

definition limit_clauses :: "pystr set" where
  "limit_clauses =
     {l @ ws @ ds | l ws ds. map ascii_lower l = ''limit'' \<and> ws \<noteq> [] \<and> (\<forall>c\<in>set ws. py_isspace c) \<and>
                             ds \<noteq> [] \<and> (\<forall>c\<in>set ds. py_isdecimal c)}"

definition has_limit_clause :: "pystr \<Rightarrow> bool" where
  "has_limit_clause s = occurs_bounded limit_clauses s"

definition gate_spec :: "pystr \<Rightarrow> gate_decision" where
  "gate_spec sql =
     (let t = safe_clean sql in
      if has_dangerous_keyword t then Reject DangerousKeyword
      else if CHR '';'' \<in> set t then Reject MultipleStatements
      else Allow (if has_limit_clause t then t else t @ '' LIMIT 100''))"

subsection \<open>Evaluation\<close>

text \<open>
  Case-insensitive comparison on code points, without building the folded characters:
  the code equation \<open>code_simp\<close> uses to run the matcher on concrete text.
\<close>

lemma ci_char_code [code]:
  "ci_char a c = (let n = (of_char c :: nat); m = (of_char a :: nat) in
     (if 65 \<le> n \<and> n \<le> 90 then n + 32 else n) = (if 65 \<le> m \<and> m \<le> 90 then m + 32 else m))"
proof -
  have "ci_char a c \<longleftrightarrow> (of_char (ascii_lower c) :: nat) = of_char (ascii_lower a)"
    unfolding ci_char_def by (rule of_char_eq_iff [symmetric])
  then show ?thesis
    by (simp only: of_char_ascii_lower Let_def)
qed

subsection \<open>The languages of the two patterns\<close>

lemma bnd_free_ci_lit: "bnd_free (ci_lit w)"
  by (induction w) auto

lemma lang_ci_lit: "lang (ci_lit w) = {v. list_all2 ci_char w v}"
proof (induction w)
  case Nil
  then show ?case by auto
next
  case (Cons a w)
  show ?case
  proof (intro set_eqI iffI)
    fix v assume "v \<in> lang (ci_lit (a # w))"
    then obtain u v' where "v = u @ v'" "u \<in> lang (Cls (ci_char a))" "v' \<in> lang (ci_lit w)"
      by (simp only: ci_lit.simps lang.simps(4)) blast
    then show "v \<in> {v. list_all2 ci_char (a # w) v}"
      using Cons.IH by auto
  next
    fix v assume "v \<in> {v. list_all2 ci_char (a # w) v}"
    then obtain c v' where "v = c # v'" "ci_char a c" "list_all2 ci_char w v'"
      by (auto simp: list_all2_Cons1)
    then have "v = [c] @ v'" "[c] \<in> lang (Cls (ci_char a))" "v' \<in> lang (ci_lit w)"
      using Cons.IH by auto
    then show "v \<in> lang (ci_lit (a # w))"
      by (simp only: ci_lit.simps lang.simps(4)) blast
  qed
qed

lemma list_all2_ci_upper:
  "\<forall>a\<in>set w. 65 \<le> (of_char a :: nat) \<and> (of_char a :: nat) \<le> 90 \<Longrightarrow>
   list_all2 ci_char w v \<longleftrightarrow> map ascii_upper v = w"
proof (induction w arbitrary: v)
  case Nil
  then show ?case by auto
next
  case (Cons a w)
  then show ?case
    by (cases v) (auto simp: ci_char_def ascii_fold_iff)
qed

lemma list_all2_ci_lower:
  "\<forall>a\<in>set w. ascii_lower a = a \<Longrightarrow> list_all2 ci_char w v \<longleftrightarrow> map ascii_lower v = w"
proof (induction w arbitrary: v)
  case Nil
  then show ?case by auto
next
  case (Cons a w)
  then show ?case by (cases v) (auto simp: ci_char_def)
qed

lemma lang_dangerous_group: "lang dangerous_group = {v. map ascii_upper v \<in> set dangerous_keywords}"
proof -
  have caps: "\<forall>a\<in>set k. 65 \<le> (of_char a :: nat) \<and> (of_char a :: nat) \<le> 90"
    if "k \<in> set dangerous_keywords" for k
    using that by (auto simp: dangerous_keywords_def)
  have L: "lang (ci_lit k) = {v. map ascii_upper v = k}" if "k \<in> set dangerous_keywords" for k
    using list_all2_ci_upper [OF caps [OF that]] by (simp only: lang_ci_lit)
  have "lang dangerous_group = (\<Union>k\<in>set dangerous_keywords. lang (ci_lit k))"
    by (simp only: dangerous_group_def dangerous_keywords_def lang.simps(5) list.set UN_insert
        UN_empty Un_empty_right)
  also have "\<dots> = (\<Union>k\<in>set dangerous_keywords. {v. map ascii_upper v = k})"
    using L by (rule SUP_cong [OF refl])
  also have "\<dots> = {v. map ascii_upper v \<in> set dangerous_keywords}"
    by blast
  finally show ?thesis .
qed

lemma lang_limit_core: "lang limit_core = limit_clauses"
proof -
  have low: "\<forall>a\<in>set ''limit''. ascii_lower a = a"
    by (simp add: pystr_simps)
  have lim: "lang (ci_lit ''limit'') = {l. map ascii_lower l = ''limit''}"
    by (simp only: lang_ci_lit list_all2_ci_lower [OF low])
  have rep: "\<And>P. lang (Rep1 P) = {v. v \<noteq> [] \<and> (\<forall>c\<in>set v. P c)}"
    by (simp only: lang.simps(6))
  have core: "lang limit_core =
      {u @ x |u x. u \<in> lang (ci_lit ''limit'') \<and>
         x \<in> {ws @ ds |ws ds. ws \<in> lang (Rep1 py_isspace) \<and> ds \<in> lang (Rep1 py_isdecimal)}}"
    by (simp only: limit_core_def lang.simps(4))
  show ?thesis
    unfolding core concat3_set unfolding lim rep limit_clauses_def mem_Collect_eq conj_assoc ..
qed

lemma bnd_free_dangerous_group: "bnd_free dangerous_group"
  by (simp add: dangerous_group_def bnd_free_ci_lit)

lemma bnd_free_limit_core: "bnd_free limit_core"
  by (simp add: limit_core_def bnd_free_ci_lit)

subsection \<open>Both languages consist of whole words\<close>

lemma ascii_upper_capital_word:
  "65 \<le> (of_char (ascii_upper c) :: nat) \<Longrightarrow> (of_char (ascii_upper c) :: nat) \<le> 90 \<Longrightarrow> py_isword c"
  by (auto simp: of_char_ascii_upper py_isword_def Let_def split: if_splits)

lemma ascii_lower_small_word:
  "97 \<le> (of_char (ascii_lower c) :: nat) \<Longrightarrow> (of_char (ascii_lower c) :: nat) \<le> 122 \<Longrightarrow> py_isword c"
  by (auto simp: of_char_ascii_lower py_isword_def Let_def split: if_splits)

lemma dangerous_words: "map ascii_upper v \<in> set dangerous_keywords \<Longrightarrow> v \<noteq> [] \<and> (\<forall>c\<in>set v. py_isword c)"
proof -
  assume k: "map ascii_upper v \<in> set dangerous_keywords"
  have caps: "\<forall>a\<in>set (map ascii_upper v). 65 \<le> (of_char a :: nat) \<and> (of_char a :: nat) \<le> 90"
    using k by (auto simp: dangerous_keywords_def)
  have "v \<noteq> []" using k by (auto simp: dangerous_keywords_def)
  moreover have "\<forall>c\<in>set v. py_isword c"
    using caps ascii_upper_capital_word by auto
  ultimately show ?thesis ..
qed

lemma word_framed_dangerous: "word_framed {v. map ascii_upper v \<in> set dangerous_keywords}"
  unfolding word_framed_def using dangerous_words by auto

lemma word_framed_limit: "word_framed limit_clauses"
proof (unfold word_framed_def, intro ballI)
  fix v assume "v \<in> limit_clauses"
  then obtain l ws ds where v: "v = l @ ws @ ds" and l: "map ascii_lower l = ''limit''"
    and ds: "ds \<noteq> []" "\<forall>c\<in>set ds. py_isdecimal c"
    unfolding limit_clauses_def mem_Collect_eq by (elim exE conjE) (rule that; assumption)
  obtain c l' where l1: "l = c # l'" using l by (cases l) auto
  then have "ascii_lower c = CHR ''l''" using l by simp
  then have "py_isword (hd v)"
    using ascii_lower_small_word [of c] by (simp add: v l1)
  moreover have "py_isword (last v)"
    using ds by (simp add: v py_isdecimal_word)
  ultimately show "v \<noteq> [] \<and> py_isword (hd v) \<and> py_isword (last v)"
    using v l1 by simp
qed

subsection \<open>The regular expressions implement the contract\<close>

theorem dangerous_search_iff: "re_search dangerous_rx s \<noteq> None \<longleftrightarrow> has_dangerous_keyword s"
  unfolding dangerous_rx_def has_dangerous_keyword_def
  using bounded_search_iff [OF bnd_free_dangerous_group, of s] lang_dangerous_group word_framed_dangerous
  by simp

theorem limit_search_iff: "re_search limit_rx s \<noteq> None \<longleftrightarrow> has_limit_clause s"
  unfolding limit_rx_def has_limit_clause_def
  using bounded_search_iff [OF bnd_free_limit_core, of s] lang_limit_core word_framed_limit
  by simp

theorem safe_gate_refines: "safe_gate sql = gate_spec sql"
  unfolding safe_gate_def gate_spec_def Let_def
  using dangerous_search_iff [of "safe_clean sql"] limit_search_iff [of "safe_clean sql"]
  by auto

subsection \<open>Cleaning does not change whole-word occurrences\<close>

lemma semicolon_not_word: "\<not> py_isword (CHR '';'')"
  by (simp add: py_isword_def)

lemma safe_clean_frame:
  "\<exists>a b. sql = a @ safe_clean sql @ b \<and> (\<forall>x\<in>set a. \<not> py_isword x) \<and> (\<forall>x\<in>set b. \<not> py_isword x)"
proof -
  obtain a b where s: "sql = a @ py_strip sql @ b" and a: "\<forall>c\<in>set a. py_isspace c"
    and b: "\<forall>c\<in>set b. py_isspace c"
    using py_strip_frame [of sql] by (elim exE conjE) (rule that)
  obtain b' where p0: "py_strip sql = py_rstrip '';'' (py_strip sql) @ b'"
    and b': "\<forall>c\<in>set b'. c \<in> set '';''"
    using py_rstrip_frame [of "py_strip sql" "'';''"] by (elim exE conjE) (rule that)
  from p0 have p: "py_strip sql = safe_clean sql @ b'" unfolding safe_clean_def .
  have "a @ py_strip sql @ b = a @ safe_clean sql @ (b' @ b)" using p by simp
  then have "sql = a @ safe_clean sql @ (b' @ b)" by (rule trans [OF s])
  moreover have "\<forall>x\<in>set a. \<not> py_isword x" using a py_isspace_not_word by blast
  moreover have "\<forall>x\<in>set (b' @ b). \<not> py_isword x"
  proof
    fix x assume "x \<in> set (b' @ b)"
    then have "x = CHR '';'' \<or> py_isspace x" using b b' by auto
    then show "\<not> py_isword x" using py_isspace_not_word semicolon_not_word by blast
  qed
  ultimately show ?thesis by (intro exI conjI)
qed

lemma occurs_bounded_clean:
  "word_framed L \<Longrightarrow> occurs_bounded L (safe_clean sql) \<longleftrightarrow> occurs_bounded L sql"
proof -
  assume L: "word_framed L"
  obtain a b where s: "sql = a @ safe_clean sql @ b" and a: "\<forall>x\<in>set a. \<not> py_isword x"
    and b: "\<forall>x\<in>set b. \<not> py_isword x"
    using safe_clean_frame by blast
  have "occurs_bounded L sql = occurs_bounded L (a @ safe_clean sql @ b)"
    using s by (rule arg_cong)
  also have "\<dots> = occurs_bounded L (safe_clean sql)"
    by (rule occurs_bounded_framed [OF L a b])
  finally show ?thesis by (rule sym)
qed

lemma dangerous_keyword_clean: "has_dangerous_keyword (safe_clean sql) \<longleftrightarrow> has_dangerous_keyword sql"
  unfolding has_dangerous_keyword_def by (rule occurs_bounded_clean [OF word_framed_dangerous])

lemma limit_clause_clean: "has_limit_clause (safe_clean sql) \<longleftrightarrow> has_limit_clause sql"
  unfolding has_limit_clause_def by (rule occurs_bounded_clean [OF word_framed_limit])

lemma dangerous_keyword_strip: "has_dangerous_keyword (py_strip s) \<longleftrightarrow> has_dangerous_keyword s"
  unfolding has_dangerous_keyword_def by (rule occurs_bounded_strip [OF word_framed_dangerous])

lemma limit_clause_strip: "has_limit_clause (py_strip s) \<longleftrightarrow> has_limit_clause s"
  unfolding has_limit_clause_def by (rule occurs_bounded_strip [OF word_framed_limit])

lemmas gate_contract = safe_gate_refines gate_spec_def dangerous_keyword_clean limit_clause_clean

subsection \<open>The appended clause\<close>

lemma limit_100_clause: "''LIMIT 100'' \<in> limit_clauses"
  unfolding limit_clauses_def mem_Collect_eq
  by (intro exI [of _ "''LIMIT''"] exI [of _ "'' ''"] exI [of _ "''100''"]) (simp add: pystr_simps)

lemma limit_suffix: "has_limit_clause (c @ '' LIMIT 100'')"
proof -
  have "c @ '' LIMIT 100'' = (c @ '' '') @ ''LIMIT 100'' @ []" by simp
  moreover have "\<not> py_isword (last (c @ '' ''))" by (simp add: py_isword_def)
  ultimately show ?thesis
    unfolding has_limit_clause_def occurs_bounded_def using limit_100_clause by blast
qed

lemma no_keyword_in_limit_100: "\<not> has_dangerous_keyword ''LIMIT 100''"
proof -
  have "re_search dangerous_rx ''LIMIT 100'' = None" by code_simp
  then show ?thesis using dangerous_search_iff by blast
qed

lemma no_keyword_suffix:
  assumes "\<not> has_dangerous_keyword c"
  shows "\<not> has_dangerous_keyword (c @ '' LIMIT 100'')"
proof
  assume "has_dangerous_keyword (c @ '' LIMIT 100'')"
  then have "occurs_bounded {v. map ascii_upper v \<in> set dangerous_keywords} (c @ CHR '' '' # ''LIMIT 100'')"
    by (simp add: has_dangerous_keyword_def)
  then have "has_dangerous_keyword c \<or> has_dangerous_keyword ''LIMIT 100''"
    unfolding has_dangerous_keyword_def
    by (rule occurs_bounded_split [rotated 2]) (auto simp: py_isword_def dest: dangerous_words)
  then show False using assms no_keyword_in_limit_100 by blast
qed

lemma gate_accepts_clean:
  assumes "has_limit_clause t" and "\<not> has_dangerous_keyword t" and "CHR '';'' \<notin> set t"
  shows "evaluate t True = Allow (py_strip t)"
proof -
  have semi: "CHR '';'' \<notin> set (py_strip t)" using assms(3) py_strip_set by blast
  then have "safe_clean t = py_strip t" by (simp add: safe_clean_def py_rstrip_none)
  then show ?thesis
    using assms semi dangerous_keyword_strip [of t] limit_clause_strip [of t]
    by (simp add: evaluate_def safe_gate_refines gate_spec_def Let_def)
qed

lemma evaluate_allow_iff:
  "evaluate sql True = Allow t \<longleftrightarrow>
     \<not> has_dangerous_keyword sql \<and> CHR '';'' \<notin> set (safe_clean sql) \<and>
     t = safe_clean sql @ (if has_limit_clause sql then [] else '' LIMIT 100'')"
  by (auto simp: evaluate_def gate_contract Let_def)

lemma admitted_props:
  assumes "evaluate sql True = Allow t"
  shows "has_limit_clause t \<and> \<not> has_dangerous_keyword t \<and> CHR '';'' \<notin> set t"
proof -
  have kw: "\<not> has_dangerous_keyword (safe_clean sql)" and semi: "CHR '';'' \<notin> set (safe_clean sql)"
    and t: "t = safe_clean sql @ (if has_limit_clause sql then [] else '' LIMIT 100'')"
    using assms by (simp_all add: evaluate_allow_iff dangerous_keyword_clean)
  show ?thesis
    using kw semi t limit_clause_clean [of sql] limit_suffix no_keyword_suffix
    by (cases "has_limit_clause sql") simp_all
qed

subsection \<open>Properties of the gate\<close>

text \<open>
  C1. The gate's two regular expressions decide exactly the contract's whole-word
  predicates: \<open>\b(INSERT|...|REPLACE)\b\<close> under \<open>re.I\<close> finds a match iff a dangerous
  keyword occurs as a whole word (in any letter case), and \<open>\blimit\s+\d+\b\<close> iff a
  \<open>LIMIT n\<close> clause does.
\<close>

theorem patterns_whole_words:
  "(re_search dangerous_rx s \<noteq> None \<longleftrightarrow> has_dangerous_keyword s) \<and>
   (re_search limit_rx s \<noteq> None \<longleftrightarrow> has_limit_clause s)"
  using dangerous_search_iff limit_search_iff by blast

text \<open>
  C2. The gate refines its contract: \<open>evaluate\<close> is \<open>gate_spec\<close> in safe mode and passes
  the text unchanged otherwise.
\<close>

theorem evaluate_refines: "evaluate sql safe = (if safe then gate_spec sql else Allow sql)"
  by (simp add: evaluate_def safe_gate_refines)

text \<open>
  C3. In safe mode an input is rejected as dangerous exactly when the raw input contains
  a dangerous keyword as a whole word; stripping whitespace and semicolons never hides or
  creates one.
\<close>

theorem reject_dangerous_iff: "evaluate sql True = Reject DangerousKeyword \<longleftrightarrow> has_dangerous_keyword sql"
  by (auto simp: evaluate_def gate_contract Let_def)

text \<open>
  C4. In safe mode an input is rejected as a multiple statement exactly when it has no
  dangerous keyword and a semicolon remains after stripping whitespace and every
  trailing semicolon.
\<close>

theorem reject_multiple_iff:
  "evaluate sql True = Reject MultipleStatements \<longleftrightarrow>
     \<not> has_dangerous_keyword sql \<and> CHR '';'' \<in> set (safe_clean sql)"
  by (auto simp: evaluate_def gate_contract Let_def)

text \<open>
  C5. Every statement the gate lets through in safe mode carries a \<open>LIMIT n\<close> clause,
  contains no dangerous keyword and no semicolon, and is the cleaned input, with
  \<open> LIMIT 100\<close> appended exactly when the input had no limit clause.
\<close>

theorem allowed_output:
  assumes "evaluate sql True = Allow t"
  shows "has_limit_clause t \<and> \<not> has_dangerous_keyword t \<and> CHR '';'' \<notin> set t \<and>
         t = safe_clean sql @ (if has_limit_clause sql then [] else '' LIMIT 100'')"
  using admitted_props [OF assms] assms by (simp add: evaluate_allow_iff)

text \<open>
  C6. The gate is idempotent up to surrounding whitespace: what it lets through passes
  it again, unchanged but for stripping, and the stripped text is a fixed point; so the
  row limit is appended at most once.
\<close>

theorem gate_fixpoint:
  assumes "evaluate sql True = Allow t"
  shows "evaluate t True = Allow (py_strip t) \<and> evaluate (py_strip t) True = Allow (py_strip t)"
proof -
  have inv: "has_limit_clause t \<and> \<not> has_dangerous_keyword t \<and> CHR '';'' \<notin> set t"
    by (rule admitted_props [OF assms])
  then have "evaluate t True = Allow (py_strip t)"
    by (simp add: gate_accepts_clean)
  moreover have "evaluate (py_strip t) True = Allow (py_strip t)"
    using inv gate_accepts_clean [of "py_strip t"] py_strip_set [of t]
    by (auto simp: dangerous_keyword_strip limit_clause_strip pystr_simps)
  ultimately show ?thesis ..
qed

subsection \<open>The properties at concrete inputs\<close>

theorem patterns_whole_words_witness:
  "has_dangerous_keyword ''DROP TABLE products'' \<and> \<not> has_limit_clause ''DROP TABLE products''"
proof -
  have "re_search dangerous_rx ''DROP TABLE products'' \<noteq> None" by code_simp
  moreover have "re_search limit_rx ''DROP TABLE products'' = None" by code_simp
  ultimately show ?thesis using patterns_whole_words [of "''DROP TABLE products''"] by simp
qed

theorem evaluate_refines_witness:
  "gate_spec ''SELECT * FROM customers'' = Allow ''SELECT * FROM customers LIMIT 100''"
proof -
  have "evaluate ''SELECT * FROM customers'' True = Allow ''SELECT * FROM customers LIMIT 100''"
    by code_simp
  then show ?thesis using evaluate_refines [of "''SELECT * FROM customers''" True] by simp
qed

theorem reject_dangerous_iff_witness: "has_dangerous_keyword ''  delete FROM customers WHERE id = 1;''"
proof -
  have "evaluate ''  delete FROM customers WHERE id = 1;'' True = Reject DangerousKeyword" by code_simp
  then show ?thesis using reject_dangerous_iff by blast
qed

theorem reject_multiple_iff_witness:
  "\<not> has_dangerous_keyword ''SELECT 1; SELECT 2'' \<and> CHR '';'' \<in> set (safe_clean ''SELECT 1; SELECT 2'')"
proof -
  have "evaluate ''SELECT 1; SELECT 2'' True = Reject MultipleStatements" by code_simp
  then show ?thesis using reject_multiple_iff by blast
qed

theorem allowed_output_witness:
  "has_limit_clause ''SELECT * FROM customers LIMIT 100'' \<and>
   \<not> has_dangerous_keyword ''SELECT * FROM customers LIMIT 100''"
proof -
  have "evaluate ''SELECT * FROM customers'' True = Allow ''SELECT * FROM customers LIMIT 100''"
    by code_simp
  then show ?thesis using allowed_output by blast
qed

theorem gate_fixpoint_witness:
  "evaluate ''SELECT * FROM orders LIMIT 10 ;'' True = Allow ''SELECT * FROM orders LIMIT 10 '' \<and>
   evaluate ''SELECT * FROM orders LIMIT 10'' True = Allow ''SELECT * FROM orders LIMIT 10''"
proof -
  have a: "evaluate ''SELECT * FROM orders LIMIT 10 ;'' True = Allow ''SELECT * FROM orders LIMIT 10 ''"
    by code_simp
  have "py_strip ''SELECT * FROM orders LIMIT 10 '' = ''SELECT * FROM orders LIMIT 10''" by code_simp
  then show ?thesis using gate_fixpoint [OF a] a by simp
qed

end
