(* ===== verification/Store.thy ===== *)
theory Store
  imports Gate
begin

text \<open>
  The execution adapter and the two request functions built on it: \<open>run_sql\<close>
  (\<open>src/super_simple_app.py\<close>, lines 29--55) and \<open>execute_sql_query\<close>, whose body
  is the dead code after the \<open>return\<close> of \<open>get_db_connection\<close> in
  \<open>src/simple_app.py\<close> (lines 37--99).

  SQLite is an interface: an \<open>engine\<close> record says what opening a connection,
  executing a statement, committing and closing do to an abstract database \<open>'db\<close>,
  and a cursor says what \<open>description\<close>, \<open>fetchall()\<close> and \<open>rowcount\<close> give.
  The engine decides transaction behaviour (an implicit transaction for DML, autocommit
  for DDL); the model fixes only the order of calls. The store state keeps the database,
  whether the request's connection is open, and the log of calls made, so that what a
  request does to the store is a statement about its events.
\<close>

subsection \<open>The engine interface\<close>

record 'v cursor =
  cur_description :: "pystr list option"
  cur_rows :: "pystr + 'v list list"
  cur_rowcount :: int

text \<open>
  \<open>eng_connect\<close> gives the message of the exception \<open>sqlite3.connect\<close> raises, if
  any; \<open>eng_execute\<close> runs \<open>cursor.execute\<close>; \<open>eng_commit\<close> runs
  \<open>conn.commit()\<close>; \<open>eng_close\<close> is what closing (or dropping) a connection does,
  rolling back an open transaction.
\<close>

record ('db, 'v) engine =
  eng_connect :: "'db \<Rightarrow> pystr option"
  eng_execute :: "'db \<Rightarrow> pystr \<Rightarrow> pystr + ('v cursor \<times> 'db)"
  eng_commit :: "'db \<Rightarrow> pystr + 'db"
  eng_close :: "'db \<Rightarrow> 'db"

text \<open>
  Calls on the store; \<open>Script\<close> is \<open>conn.executescript\<close>. \<open>Dropped\<close> is a
  connection released without \<open>close()\<close>, when the function returns from its
  \<open>except\<close> branch (or the process ends) and the connection object is freed.
\<close>

datatype store_event = Connect | Execute pystr | Script pystr | Commit | Close | Dropped

record 'db store =
  db :: 'db
  conn_open :: bool
  events :: "store_event list"

subsection \<open>Connection operations\<close>

text \<open>Each operation returns the exception message or its result, and the new store.\<close>

definition db_connect :: "('db, 'v) engine \<Rightarrow> 'db store \<Rightarrow> (pystr + unit) \<times> 'db store" where
  "db_connect E st =
     (let st' = st\<lparr>events := events st @ [Connect]\<rparr> in
      case eng_connect E (db st) of
        Some e \<Rightarrow> (Inl e, st')
      | None \<Rightarrow> (Inr (), st'\<lparr>conn_open := True\<rparr>))"

definition db_execute ::
  "('db, 'v) engine \<Rightarrow> pystr \<Rightarrow> 'db store \<Rightarrow> (pystr + 'v cursor) \<times> 'db store" where
  "db_execute E sql st =
     (let st' = st\<lparr>events := events st @ [Execute sql]\<rparr> in
      case eng_execute E (db st) sql of
        Inl e \<Rightarrow> (Inl e, st')
      | Inr (c, d) \<Rightarrow> (Inr c, st'\<lparr>db := d\<rparr>))"

definition db_commit :: "('db, 'v) engine \<Rightarrow> 'db store \<Rightarrow> (pystr + unit) \<times> 'db store" where
  "db_commit E st =
     (let st' = st\<lparr>events := events st @ [Commit]\<rparr> in
      case eng_commit E (db st) of
        Inl e \<Rightarrow> (Inl e, st')
      | Inr d \<Rightarrow> (Inr (), st'\<lparr>db := d\<rparr>))"

definition db_close :: "('db, 'v) engine \<Rightarrow> 'db store \<Rightarrow> 'db store" where
  "db_close E st = st\<lparr>db := eng_close E (db st), conn_open := False, events := events st @ [Close]\<rparr>"

text \<open>The connection of a function that raised, freed when the function returns.\<close>

definition db_drop :: "('db, 'v) engine \<Rightarrow> 'db store \<Rightarrow> 'db store" where
  "db_drop E st =
     (if conn_open st
      then st\<lparr>db := eng_close E (db st), conn_open := False, events := events st @ [Dropped]\<rparr>
      else st)"

subsection \<open>The execution adapter\<close>

text \<open>The spec's \<open>ExecutionResult\<close>.\<close>

datatype 'v exec_result = Rows "pystr list" "'v list list" | Affected int | ExecutionFailure pystr

text \<open>
  Lines 40--55 of \<open>run_sql\<close> (and 65--99 of \<open>execute_sql_query\<close>): connect, execute,
  then fetch rows and column names and close if the text starts with \<open>SELECT\<close>, else
  commit and close and report \<open>rowcount\<close>; any exception becomes a failure. \<open>sql\<close> is
  whatever value the caller passes; \<open>cursor.execute\<close> raises \<open>TypeError\<close> on a
  non-string.
\<close>

definition execute_adapter ::
  "('db, 'v) engine \<Rightarrow> json \<Rightarrow> 'db store \<Rightarrow> 'v exec_result \<times> 'db store" where
  "execute_adapter E sql st0 =
     (case db_connect E st0 of
        (Inl e, st1) \<Rightarrow> (ExecutionFailure e, st1)
      | (Inr _, st1) \<Rightarrow>
          (case sql of
             JStr s \<Rightarrow>
               (case db_execute E s st1 of
                  (Inl e, st2) \<Rightarrow> (ExecutionFailure e, db_drop E st2)
                | (Inr c, st2) \<Rightarrow>
                    if starts_with_select s then
                      (case cur_rows c of
                         Inl e \<Rightarrow> (ExecutionFailure e, db_drop E st2)
                       | Inr rows \<Rightarrow>
                           (case cur_description c of
                              None \<Rightarrow> (ExecutionFailure (py_quote ''NoneType'' @ '' object is not iterable''), db_drop E st2)
                            | Some cols \<Rightarrow> (Rows cols rows, db_close E st2)))
                    else
                      (case db_commit E st2 of
                         (Inl e, st3) \<Rightarrow> (ExecutionFailure e, db_drop E st3)
                       | (Inr _, st3) \<Rightarrow> (Affected (cur_rowcount c), db_close E st3)))
           | v \<Rightarrow> (ExecutionFailure (''execute() argument 1 must be str, not '' @ py_type_name v),
                   db_drop E st1)))"

subsection \<open>Responses\<close>

text \<open>The Python values the functions return, \<open>PCell\<close> being a value read from the store.\<close>

datatype 'v pyval = PBool bool | PInt int | PStr pystr | PList "'v pyval list"
  | PDict "(pystr \<times> 'v pyval) list" | PCell 'v

definition rows_value :: "'v list list \<Rightarrow> 'v pyval" where
  "rows_value rows = PList (map (\<lambda>row. PList (map PCell row)) rows)"

text \<open>The dictionaries \<open>run_sql\<close> returns (lines 34, 36, 48, 52, 55).\<close>

definition fail_resp :: "pystr \<Rightarrow> 'v pyval" where
  "fail_resp e = PDict [(''success'', PBool False), (''error'', PStr e)]"

definition run_sql_response :: "'v exec_result \<Rightarrow> 'v pyval" where
  "run_sql_response r =
     (case r of
        Rows cols rows \<Rightarrow>
          PDict [(''success'', PBool True),
                 (''data'', PDict [(''columns'', PList (map PStr cols)), (''rows'', rows_value rows)])]
      | Affected n \<Rightarrow> PDict [(''success'', PBool True), (''data'', PDict [(''affected'', PInt n)])]
      | ExecutionFailure e \<Rightarrow> fail_resp e)"

text \<open>\<open>run_sql(sql, safe)\<close> of \<open>super_simple_app.py\<close>.\<close>

definition run_sql ::
  "('db, 'v) engine \<Rightarrow> json \<Rightarrow> bool \<Rightarrow> 'db store \<Rightarrow> 'v pyval \<times> 'db store" where
  "run_sql E sql safe st =
     (if safe then
        (case sql of
           JStr s \<Rightarrow>
             (case safe_gate s of
                Reject DangerousKeyword \<Rightarrow> (fail_resp ''Dangerous operations blocked'', st)
              | Reject MultipleStatements \<Rightarrow> (fail_resp ''Multiple statements blocked'', st)
              | Allow t \<Rightarrow> apfst run_sql_response (execute_adapter E (JStr t) st))
         | v \<Rightarrow> (fail_resp (attr_error v ''strip''), st))
      else apfst run_sql_response (execute_adapter E sql st))"

text \<open>The dictionaries of \<open>execute_sql_query\<close> in \<open>simple_app.py\<close>, which add a \<open>message\<close>.\<close>

definition msg_resp :: "bool \<Rightarrow> pystr \<Rightarrow> pystr \<Rightarrow> 'v pyval" where
  "msg_resp ok e m = PDict [(''success'', PBool ok), (''error'', PStr e), (''message'', PStr m)]"

definition query_response :: "'v exec_result \<Rightarrow> 'v pyval" where
  "query_response r =
     (case r of
        Rows cols rows \<Rightarrow>
          PDict [(''success'', PBool True),
                 (''data'', PDict [(''columns'', PList (map PStr cols)), (''rows'', rows_value rows)]),
                 (''message'', PStr (''Query executed successfully - '' @ py_str_int (int (length rows)) @
                                     '' rows returned''))]
      | Affected n \<Rightarrow>
          PDict [(''success'', PBool True), (''data'', PDict [(''affected_rows'', PInt n)]),
                 (''message'', PStr (''Query executed - '' @ py_str_int n @ '' rows affected''))]
      | ExecutionFailure e \<Rightarrow> msg_resp False e ''SQL execution failed'')"

text \<open>
  \<open>execute_sql_query(sql, safe_mode)\<close>: the body written under \<open>get_db_connection\<close>,
  read as the function \<open>api_execute\<close> calls. No such function is defined, so this code
  never runs; it is modelled as written.
\<close>

definition execute_sql_query ::
  "('db, 'v) engine \<Rightarrow> json \<Rightarrow> bool \<Rightarrow> 'db store \<Rightarrow> 'v pyval \<times> 'db store" where
  "execute_sql_query E sql safe_mode st =
     (if safe_mode then
        (case sql of
           JStr s \<Rightarrow>
             (case safe_gate s of
                Reject DangerousKeyword \<Rightarrow>
                  (msg_resp False ''Dangerous operations not allowed in safe mode''
                     ''Only SELECT queries are permitted'', st)
              | Reject MultipleStatements \<Rightarrow>
                  (msg_resp False ''Multiple statements not allowed''
                     ''Only single SELECT statements permitted'', st)
              | Allow t \<Rightarrow> apfst query_response (execute_adapter E (JStr t) st))
         | v \<Rightarrow> (msg_resp False (attr_error v ''strip'') ''SQL execution failed'', st))
      else apfst query_response (execute_adapter E sql st))"

subsection \<open>The calls a request may make\<close>

text \<open>
  The sequences of store calls the adapter may make for the value \<open>sql\<close> with result
  \<open>r\<close>: a read closes after fetching, a write commits then closes, and a failure
  stops at the call that raised and releases the connection without \<open>close()\<close>.
\<close>

definition adapter_trace :: "json \<Rightarrow> 'v exec_result \<Rightarrow> store_event list \<Rightarrow> bool" where
  "adapter_trace sql r evs =
     (case sql of
        JStr s \<Rightarrow>
          (case r of
             Rows _ _ \<Rightarrow> starts_with_select s \<and> evs = [Connect, Execute s, Close]
           | Affected _ \<Rightarrow> \<not> starts_with_select s \<and> evs = [Connect, Execute s, Commit, Close]
           | ExecutionFailure _ \<Rightarrow>
               evs \<in> set [[Connect], [Connect, Execute s, Dropped]] \<or>
               (\<not> starts_with_select s \<and> evs = [Connect, Execute s, Commit, Dropped]))
      | _ \<Rightarrow>
          (case r of
             ExecutionFailure _ \<Rightarrow> evs \<in> set [[Connect], [Connect, Dropped]]
           | _ \<Rightarrow> False))"

text \<open>The statements a sequence of calls executes.\<close>

fun executed :: "store_event list \<Rightarrow> pystr list" where
  "executed [] = []"
| "executed (Execute s # evs) = s # executed evs"
| "executed (_ # evs) = executed evs"

text \<open>
  A small engine for concrete runs: the database counts executed statements, every
  statement yields one column \<open>x\<close> with one row and \<open>rowcount\<close> -1, and connecting,
  committing and closing succeed.
\<close>

definition demo_engine :: "(nat, pystr) engine" where
  "demo_engine =
     \<lparr>eng_connect = (\<lambda>_. None),
      eng_execute = (\<lambda>d _. Inr (\<lparr>cur_description = Some [''x''], cur_rows = Inr [[''1'']],
                                 cur_rowcount = -1\<rparr>, Suc d)),
      eng_commit = Inr, eng_close = id\<rparr>"

text \<open>Whether a returned dictionary reports \<open>success: True\<close>.\<close>

definition resp_success :: "'v pyval \<Rightarrow> bool" where
  "resp_success v = (case v of PDict d \<Rightarrow> map_of d ''success'' = Some (PBool True) | _ \<Rightarrow> False)"

definition demo_store :: "nat store" where
  "demo_store = \<lparr>db = 0, conn_open = False, events = []\<rparr>"

subsection \<open>The adapter\<close>

lemma executed_append [simp]: "executed (xs @ ys) = executed xs @ executed ys"
  by (induction xs rule: executed.induct) simp_all

lemma set_executed [simp]: "t \<in> set (executed evs) \<longleftrightarrow> Execute t \<in> set evs"
  by (induction evs rule: executed.induct) auto

lemma db_ops_conn [store_simps]:
  "conn_open (snd (db_connect E st)) = (eng_connect E (db st) = None \<or> conn_open st)"
  "conn_open (snd (db_execute E s st)) = conn_open st"
  "conn_open (snd (db_commit E st)) = conn_open st"
  "\<not> conn_open (db_close E st)"
  "\<not> conn_open (db_drop E st)"
  by (auto simp: db_connect_def db_execute_def db_commit_def db_close_def db_drop_def Let_def
      split: option.split sum.split prod.split)

lemma execute_adapter_trace:
  assumes "execute_adapter E sql st = (r, st')"
  shows "\<exists>evs. events st' = events st @ evs \<and> adapter_trace sql r evs"
  using assms
  by (auto simp: execute_adapter_def adapter_trace_def db_connect_def db_execute_def
      db_commit_def db_close_def db_drop_def Let_def
      split: option.splits sum.splits prod.splits json.splits if_splits)

lemma execute_adapter_closed:
  assumes "execute_adapter E sql st = (r, st')" and "\<not> conn_open st"
  shows "\<not> conn_open st'"
  using assms
  by (auto simp: execute_adapter_def db_connect_def db_execute_def db_commit_def db_close_def
      db_drop_def Let_def split: option.splits sum.splits prod.splits json.splits if_splits)

lemma adapter_trace_executed:
  assumes "adapter_trace sql r evs"
  shows "length (executed evs) \<le> 1 \<and> (\<forall>t\<in>set (executed evs). sql = JStr t)"
  using assms by (auto simp: adapter_trace_def split: json.splits exec_result.splits)

lemma execute_adapter_executes:
  assumes "execute_adapter E sql st = (r, st')"
  obtains evs where "events st' = events st @ evs" and "adapter_trace sql r evs"
    and "length (executed evs) \<le> 1" and "\<forall>t\<in>set (executed evs). sql = JStr t"
  using execute_adapter_trace [OF assms] adapter_trace_executed by blast

subsection \<open>\<open>run_sql\<close>\<close>

lemma run_sql_cases:
  assumes "run_sql E sql safe st = (resp, st')"
  shows "st' = st \<and> (\<exists>m. resp = fail_resp m) \<or>
         (\<exists>x r. execute_adapter E x st = (r, st') \<and> resp = run_sql_response r \<and>
            (if safe then \<exists>s t. sql = JStr s \<and> evaluate s True = Allow t \<and> x = JStr t
             else x = sql))"
  using assms
  by (auto simp: run_sql_def evaluate_def apfst_eq_pair
      split: json.splits gate_decision.splits reject_reason.splits if_splits)

lemma demo_select_run:
  "run_sql demo_engine (JStr ''select * from t'') True demo_store =
     (run_sql_response (Rows [''x''] [[''1'']]),
      \<lparr>db = 1, conn_open = False, events = [Connect, Execute ''select * from t LIMIT 100'', Close]\<rparr>)"
  by code_simp

lemma demo_delete_run:
  "run_sql demo_engine (JStr ''DELETE FROM t'') False demo_store =
     (run_sql_response (Affected (-1)),
      \<lparr>db = 1, conn_open = False, events = [Connect, Execute ''DELETE FROM t'', Commit, Close]\<rparr>)"
  by code_simp

lemma demo_engine_ops:
  "eng_connect demo_engine d = None"
  "eng_execute demo_engine d s =
     Inr (\<lparr>cur_description = Some [''x''], cur_rows = Inr [[''1'']], cur_rowcount = -1\<rparr>, Suc d)"
  "eng_commit demo_engine d = Inr d"
  "eng_close demo_engine d = d"
  by (simp_all add: demo_engine_def)

lemma run_sql_calls:
  assumes "run_sql E sql safe st = (resp, st')"
  shows "\<exists>evs. events st' = events st @ evs \<and> length (executed evs) \<le> 1 \<and>
           (\<forall>t\<in>set (executed evs).
              if safe then (\<exists>s. sql = JStr s \<and> evaluate s True = Allow t) \<and>
                has_limit_clause t \<and> \<not> has_dangerous_keyword t \<and> CHR '';'' \<notin> set t
              else sql = JStr t)"
  using run_sql_cases [OF assms]
proof
  assume "st' = st \<and> (\<exists>m. resp = fail_resp m)"
  then show ?thesis by simp
next
  assume "\<exists>x r. execute_adapter E x st = (r, st') \<and> resp = run_sql_response r \<and>
            (if safe then \<exists>s t. sql = JStr s \<and> evaluate s True = Allow t \<and> x = JStr t
             else x = sql)"
  then obtain x r where ad: "execute_adapter E x st = (r, st')"
    and sel: "if safe then \<exists>s t. sql = JStr s \<and> evaluate s True = Allow t \<and> x = JStr t
              else x = sql"
    by blast
  obtain evs where ev: "events st' = events st @ evs" and one: "length (executed evs) \<le> 1"
    and ex: "\<forall>t\<in>set (executed evs). x = JStr t"
    using ad by (rule execute_adapter_executes)
  show ?thesis
  proof (cases safe)
    case True
    then obtain s t0 where "sql = JStr s" and ok: "evaluate s True = Allow t0" and "x = JStr t0"
      using sel by auto
    then show ?thesis
      using True ev one ex admitted_props [OF ok] by auto
  next
    case False
    then show ?thesis
      using sel ev one ex by auto
  qed
qed

subsection \<open>Properties of the request functions\<close>

text \<open>
  C8. In safe mode a statement the gate rejects never reaches the store: \<open>run_sql\<close>
  returns the rejection's error and the store (database, connection and call log) is
  unchanged.
\<close>

theorem run_sql_rejects:
  assumes "evaluate s True = Reject reason"
  shows "run_sql E (JStr s) True st =
           (fail_resp (case reason of DangerousKeyword \<Rightarrow> ''Dangerous operations blocked''
                       | MultipleStatements \<Rightarrow> ''Multiple statements blocked''), st)"
  using assms by (cases reason) (simp_all add: run_sql_def evaluate_def)

text \<open>
  C9. A request executes at most one statement. In safe mode it is the text the gate
  admitted for the request, so it carries a \<open>LIMIT n\<close> clause, no whole-word dangerous
  keyword and no semicolon; outside safe mode it is the request's text itself.
\<close>

theorem run_sql_executes:
  assumes "run_sql E sql safe st = (resp, st')"
  shows "\<exists>evs. events st' = events st @ evs \<and> length (executed evs) \<le> 1 \<and>
           (\<forall>t\<in>set (executed evs).
              if safe then (\<exists>s. sql = JStr s \<and> evaluate s True = Allow t) \<and>
                has_limit_clause t \<and> \<not> has_dangerous_keyword t \<and> CHR '';'' \<notin> set t
              else sql = JStr t)"
  using run_sql_calls [OF assms] .

text \<open>
  C10. The calls a request makes follow the adapter's protocol and the answer reports
  the adapter's result: either nothing is called and the store is unchanged, or the
  request connects, executes, and then fetches and closes (a text starting with
  \<open>SELECT\<close>, answered with its rows), commits and closes (any other text, answered
  with \<open>rowcount\<close>), or stops at the failing call and releases the connection.
\<close>

theorem run_sql_trace:
  assumes "run_sql E sql safe st = (resp, st')"
  shows "\<exists>evs. events st' = events st @ evs \<and>
           (evs = [] \<and> st' = st \<or> (\<exists>x r. adapter_trace x r evs \<and> resp = run_sql_response r))"
  using run_sql_cases [OF assms] execute_adapter_trace by fastforce



theorem run_sql_rejects_witness:
  "evaluate ''DELETE FROM t'' True = Reject DangerousKeyword \<and>
   run_sql demo_engine (JStr ''DELETE FROM t'') True demo_store =
     (fail_resp ''Dangerous operations blocked'', demo_store)"
proof -
  have rej: "evaluate ''DELETE FROM t'' True = Reject DangerousKeyword"
    by code_simp
  show ?thesis
    using run_sql_rejects [OF rej, of demo_engine demo_store] rej by simp
qed

theorem run_sql_executes_witness:
  "\<exists>evs. [Connect, Execute ''select * from t LIMIT 100'', Close] = events demo_store @ evs \<and>
     length (executed evs) \<le> 1 \<and>
     (\<forall>t\<in>set (executed evs).
        (\<exists>s. JStr ''select * from t'' = JStr s \<and> evaluate s True = Allow t) \<and>
        has_limit_clause t \<and> \<not> has_dangerous_keyword t \<and> CHR '';'' \<notin> set t)"
  using run_sql_executes [OF demo_select_run] by simp

theorem run_sql_trace_witness:
  "\<exists>evs. [Connect, Execute ''DELETE FROM t'', Commit, Close] = events demo_store @ evs \<and>
     (evs = [] \<and> \<lparr>db = 1, conn_open = False,
                  events = [Connect, Execute ''DELETE FROM t'', Commit, Close]\<rparr> = demo_store \<or>
      (\<exists>x r. adapter_trace x r evs \<and>
         run_sql_response (Affected (-1) :: pystr exec_result) = run_sql_response r))"
  using run_sql_trace [OF demo_delete_run] by simp


subsection \<open>Statements the gate does not classify\<close>

text \<open>
  C13. Safe mode is meant to admit only non-mutating statements, but the gate screens
  eight keywords only: a \<open>PRAGMA\<close> that writes the database header, with a comment
  that satisfies the limit check, is admitted unchanged and, as it does not start
  with \<open>SELECT\<close>, takes the commit path.
\<close>

theorem pragma_committed:
  assumes "eng_connect E (db st) = None"
    and "eng_execute E (db st) ''PRAGMA user_version = 7 /* limit 1 */'' = Inr (c, d)"
    and "eng_commit E d = Inr d'"
  shows "run_sql E (JStr ''PRAGMA user_version = 7 /* limit 1 */'') True st =
           (run_sql_response (Affected (cur_rowcount c)),
            st\<lparr>db := eng_close E d', conn_open := False,
               events := events st @
                 [Connect, Execute ''PRAGMA user_version = 7 /* limit 1 */'', Commit, Close]\<rparr>)"
proof -
  have gate: "safe_gate ''PRAGMA user_version = 7 /* limit 1 */'' =
              Allow ''PRAGMA user_version = 7 /* limit 1 */''"
    by code_simp
  have "\<not> starts_with_select ''PRAGMA user_version = 7 /* limit 1 */''"
    by code_simp
  then show ?thesis
    using assms gate
    by (simp add: run_sql_def execute_adapter_def db_connect_def db_execute_def db_commit_def
        db_close_def Let_def)
qed

theorem pragma_committed_witness:
  "run_sql demo_engine (JStr ''PRAGMA user_version = 7 /* limit 1 */'') True demo_store =
     (run_sql_response (Affected (-1)),
      \<lparr>db = 1, conn_open = False,
       events = [Connect, Execute ''PRAGMA user_version = 7 /* limit 1 */'', Commit, Close]\<rparr>)"
  using pragma_committed [of demo_engine demo_store] by (simp add: demo_engine_ops demo_store_def)

text \<open>
  C14. The adapter tells reads from writes by the prefix \<open>SELECT\<close>: a read query
  written with \<open>WITH\<close> passes the gate, is committed as a write and answered with
  \<open>rowcount\<close> instead of its rows, whatever rows the cursor holds.
\<close>

theorem with_query_affected:
  assumes "eng_connect E (db st) = None"
    and "eng_execute E (db st) ''WITH t AS (SELECT 1 AS x) SELECT x FROM t LIMIT 5'' = Inr (c, d)"
    and "eng_commit E d = Inr d'"
  shows "run_sql E (JStr ''WITH t AS (SELECT 1 AS x) SELECT x FROM t LIMIT 5'') True st =
           (PDict [(''success'', PBool True), (''data'', PDict [(''affected'', PInt (cur_rowcount c))])],
            st\<lparr>db := eng_close E d', conn_open := False,
               events := events st @
                 [Connect, Execute ''WITH t AS (SELECT 1 AS x) SELECT x FROM t LIMIT 5'', Commit, Close]\<rparr>)"
proof -
  have gate: "safe_gate ''WITH t AS (SELECT 1 AS x) SELECT x FROM t LIMIT 5'' =
              Allow ''WITH t AS (SELECT 1 AS x) SELECT x FROM t LIMIT 5''"
    by code_simp
  have "\<not> starts_with_select ''WITH t AS (SELECT 1 AS x) SELECT x FROM t LIMIT 5''"
    by code_simp
  then show ?thesis
    using assms gate
    by (simp add: run_sql_def execute_adapter_def db_connect_def db_execute_def db_commit_def
        db_close_def run_sql_response_def Let_def)
qed

theorem with_query_affected_witness:
  "run_sql demo_engine (JStr ''WITH t AS (SELECT 1 AS x) SELECT x FROM t LIMIT 5'') True demo_store =
     (PDict [(''success'', PBool True), (''data'', PDict [(''affected'', PInt (-1))])],
      \<lparr>db = 1, conn_open = False,
       events = [Connect, Execute ''WITH t AS (SELECT 1 AS x) SELECT x FROM t LIMIT 5'', Commit, Close]\<rparr>)"
  using with_query_affected [of demo_engine demo_store] by (simp add: demo_engine_ops demo_store_def)

end
