(* ===== verification/Api.thy ===== *)
theory Api
  imports Store
begin

text \<open>
  The Flask handlers of both applications over the store model of \<open>Store\<close>:
  \<open>/api/execute\<close> (\<open>execute\<close> of \<open>super_simple_app.py\<close>, lines 61--70, and
  \<open>api_execute\<close> of \<open>simple_app.py\<close>, lines 143--158), the schema endpoints
  (\<open>schema\<close>, lines 72--89, and \<open>get_schema\<close>/\<open>api_schema\<close>, lines 101--141) and
  the sample catalogs (lines 91--107 and 160--178). A request body is the JSON value
  \<open>request.get_json()\<close> returns; an exception that escapes a handler is Flask's
  \<open>500 Internal Server Error\<close>, modelled as \<open>ServerError\<close> with the exception's
  message.
\<close>

subsection \<open>HTTP responses\<close>

datatype 'v http_response = HttpJson "'v pyval" | ServerError pystr

definition http_success :: "'v http_response \<Rightarrow> bool" where
  "http_success r = (case r of HttpJson v \<Rightarrow> resp_success v | ServerError _ \<Rightarrow> False)"

subsection \<open>\<open>/api/execute\<close>\<close>

text \<open>
  \<open>sql = data.get('sql', '')\<close> and
  \<open>data.get('security_level', 'safe') == 'safe'\<close> (lines 64--65 and 147--148); a JSON
  value equals \<open>'safe'\<close> only when it is that string.
\<close>

definition request_fields :: "(pystr \<times> json) list \<Rightarrow> json \<times> bool" where
  "request_fields d =
     (py_get d ''sql'' (JStr []), py_get d ''security_level'' (JStr ''safe'') = JStr ''safe'')"

text \<open>\<open>execute()\<close> of \<open>super_simple_app.py\<close>: a body that is not an object has no \<open>get\<close>.\<close>

definition execute :: "('db, 'v) engine \<Rightarrow> json \<Rightarrow> 'db store \<Rightarrow> 'v http_response \<times> 'db store" where
  "execute E data st =
     (case data of
        JObj d \<Rightarrow>
          (case request_fields d of
             (sql, safe) \<Rightarrow>
               if \<not> py_truthy sql then (HttpJson (fail_resp ''No SQL provided''), st)
               else apfst HttpJson (run_sql E sql safe st))
      | v \<Rightarrow> (ServerError (attr_error v ''get''), st))"

text \<open>
  \<open>api_execute()\<close> of \<open>simple_app.py\<close>. \<open>sql.strip()\<close> raises on a non-string; the
  function it then calls, \<open>execute_sql_query\<close>, is never defined (its body is dead code
  under \<open>get_db_connection\<close>), so the call raises \<open>NameError\<close> before any store access.
\<close>

definition api_execute :: "json \<Rightarrow> 'db store \<Rightarrow> 'v http_response \<times> 'db store" where
  "api_execute data st =
     (case data of
        JObj d \<Rightarrow>
          (case request_fields d of
             (sql, safe_mode) \<Rightarrow>
               (case sql of
                  JStr s \<Rightarrow>
                    if py_strip s = [] then
                      (HttpJson (msg_resp False ''Empty query'' ''Please enter a SQL query''), st)
                    else (ServerError (''name '' @ py_quote ''execute_sql_query'' @ '' is not defined''), st)
                | v \<Rightarrow> (ServerError (attr_error v ''strip''), st)))
      | v \<Rightarrow> (ServerError (attr_error v ''get''), st))"

subsection \<open>Schema introspection\<close>

text \<open>\<open>row[i]\<close> on a row the store returned (a tuple).\<close>

definition py_index :: "'a list \<Rightarrow> nat \<Rightarrow> pystr + 'a" where
  "py_index xs i = (if i < length xs then Inr (xs ! i) else Inl ''tuple index out of range'')"

definition tables_query :: pystr where
  "tables_query = ''SELECT name FROM sqlite_master WHERE type='' @ py_quote ''table''"

text \<open>\<open>f"PRAGMA table_info({table})"\<close>: the name is interpolated as it is, unquoted.\<close>

definition table_info_query :: "pystr \<Rightarrow> pystr" where
  "table_info_query t = ''PRAGMA table_info('' @ t @ '')''"

text \<open>
  What Python does with a value read from the store: \<open>str()\<close> of it, as an f-string
  formats it, and \<open>bool()\<close> of it. Table names come from \<open>sqlite_master.name\<close>, a
  text column, so a name is its own \<open>str()\<close> and the schema dictionary is keyed by it.
\<close>

record 'v cells =
  cell_str :: "'v \<Rightarrow> pystr"
  cell_truthy :: "'v \<Rightarrow> bool"

text \<open>\<open>{"name": c[1], "type": c[2]}\<close> (\<open>super_simple_app.py\<close>, line 84).\<close>

definition column_entry :: "'v list \<Rightarrow> pystr + 'v pyval" where
  "column_entry c =
     (case py_index c 1 of
        Inl e \<Rightarrow> Inl e
      | Inr n \<Rightarrow>
          (case py_index c 2 of
             Inl e \<Rightarrow> Inl e
           | Inr t \<Rightarrow> Inr (PDict [(''name'', PCell n), (''type'', PCell t)])))"

text \<open>The entry of \<open>simple_app.py\<close> (lines 118--123), evaluated in the order written.\<close>

definition column_info :: "'v cells \<Rightarrow> 'v list \<Rightarrow> pystr + 'v pyval" where
  "column_info V c =
     (case py_index c 1 of
        Inl e \<Rightarrow> Inl e
      | Inr n \<Rightarrow>
          (case py_index c 2 of
             Inl e \<Rightarrow> Inl e
           | Inr t \<Rightarrow>
               (case py_index c 3 of
                  Inl e \<Rightarrow> Inl e
                | Inr nn \<Rightarrow>
                    (case py_index c 5 of
                       Inl e \<Rightarrow> Inl e
                     | Inr pk \<Rightarrow>
                         Inr (PDict [(''name'', PCell n), (''type'', PCell t),
                                     (''not_null'', PBool (cell_truthy V nn)),
                                     (''primary_key'', PBool (cell_truthy V pk))])))))"

text \<open>
  The \<open>for table in tables\<close> loop: \<open>key\<close> gives the table's name from an item,
  \<open>col\<close> the entry of a column; \<open>schema[name] = ...\<close> is \<open>AList.update\<close>, which,
  like a Python dictionary, keeps the position of a key already present.
\<close>

fun schema_loop ::
  "('db, 'v) engine \<Rightarrow> 'v cells \<Rightarrow> ('a \<Rightarrow> pystr + 'v) \<Rightarrow> ('v list \<Rightarrow> pystr + 'v pyval) \<Rightarrow>
   'a list \<Rightarrow> (pystr \<times> 'v pyval) list \<Rightarrow> 'db store \<Rightarrow>
   (pystr + (pystr \<times> 'v pyval) list) \<times> 'db store" where
  "schema_loop E V key col [] acc st = (Inr acc, st)"
| "schema_loop E V key col (t # ts) acc st =
     (case key t of
        Inl e \<Rightarrow> (Inl e, st)
      | Inr name \<Rightarrow>
          (case db_execute E (table_info_query (cell_str V name)) st of
             (Inl e, st1) \<Rightarrow> (Inl e, st1)
           | (Inr c, st1) \<Rightarrow>
               (case cur_rows c of
                  Inl e \<Rightarrow> (Inl e, st1)
                | Inr cols \<Rightarrow>
                    (case sum_map col cols of
                       Inl e \<Rightarrow> (Inl e, st1)
                     | Inr entries \<Rightarrow>
                         schema_loop E V key col ts
                           (AList.update (cell_str V name) (PList entries) acc) st1))))"

definition error_resp :: "pystr \<Rightarrow> 'v pyval" where
  "error_resp e = PDict [(''error'', PStr e)]"

text \<open>
  The body both schema endpoints share: connect, list the tables, run the loop, close;
  an exception answers \<open>{"error": str(e)}\<close> and the connection is freed unclosed.
  \<open>prep\<close> is what is done to the fetched rows before the loop.
\<close>

definition read_schema ::
  "('db, 'v) engine \<Rightarrow> 'v cells \<Rightarrow> ('v list list \<Rightarrow> pystr + 'a list) \<Rightarrow> ('a \<Rightarrow> pystr + 'v) \<Rightarrow>
   ('v list \<Rightarrow> pystr + 'v pyval) \<Rightarrow> 'db store \<Rightarrow> 'v pyval \<times> 'db store" where
  "read_schema E V prep key col st0 =
     (case db_connect E st0 of
        (Inl e, st1) \<Rightarrow> (error_resp e, st1)
      | (Inr _, st1) \<Rightarrow>
          (case db_execute E tables_query st1 of
             (Inl e, st2) \<Rightarrow> (error_resp e, db_drop E st2)
           | (Inr c, st2) \<Rightarrow>
               (case cur_rows c of
                  Inl e \<Rightarrow> (error_resp e, db_drop E st2)
                | Inr rows \<Rightarrow>
                    (case prep rows of
                       Inl e \<Rightarrow> (error_resp e, db_drop E st2)
                     | Inr tables \<Rightarrow>
                         (case schema_loop E V key col tables [] st2 of
                            (Inl e, st3) \<Rightarrow> (error_resp e, db_drop E st3)
                          | (Inr d, st3) \<Rightarrow> (PDict d, db_close E st3))))))"

text \<open>
  \<open>schema()\<close> of \<open>super_simple_app.py\<close>: \<open>tables = [t[0] for t in rows]\<close> before
  the loop, entries of name and type.
\<close>

definition schema :: "('db, 'v) engine \<Rightarrow> 'v cells \<Rightarrow> 'db store \<Rightarrow> 'v http_response \<times> 'db store" where
  "schema E V st = apfst HttpJson (read_schema E V (sum_map (\<lambda>t. py_index t 0)) Inr column_entry st)"

text \<open>\<open>get_schema()\<close> of \<open>simple_app.py\<close>: \<open>table[0]\<close> inside the loop.\<close>

definition get_schema :: "('db, 'v) engine \<Rightarrow> 'v cells \<Rightarrow> 'db store \<Rightarrow> 'v pyval \<times> 'db store" where
  "get_schema E V st = read_schema E V Inr (\<lambda>t. py_index t 0) (column_info V) st"

definition api_schema :: "('db, 'v) engine \<Rightarrow> 'v cells \<Rightarrow> 'db store \<Rightarrow> 'v http_response \<times> 'db store" where
  "api_schema E V st = apfst HttpJson (get_schema E V st)"

subsection \<open>Sample queries\<close>

text \<open>A catalog: categories in order, each a list of (name, SQL text).\<close>

type_synonym catalog = "(pystr \<times> (pystr \<times> pystr) list) list"

definition catalog_value :: "catalog \<Rightarrow> 'v pyval" where
  "catalog_value cat =
     PDict (map (\<lambda>(k, xs). (k, PList (map (\<lambda>(n, q). PDict [(''name'', PStr n), (''sql'', PStr q)]) xs)))
                cat)"

definition samples_catalog :: catalog where
  "samples_catalog =
     [(''basic'',
       [(''All Customers'', ''SELECT * FROM customers''),
        (''All Products'', ''SELECT * FROM products''),
        (''Recent Orders'', ''SELECT * FROM orders ORDER BY order_date DESC'')]),
      (''analytics'',
       [(''Revenue by Customer'',
         ''SELECT c.name, SUM(oi.quantity * oi.unit_price_cents)/100 as revenue FROM customers c JOIN orders o ON c.id = o.customer_id JOIN order_items oi ON o.id = oi.order_id GROUP BY c.id''),
        (''Product Performance'',
         ''SELECT p.name, COUNT(*) as orders FROM products p JOIN order_items oi ON p.id = oi.product_id GROUP BY p.id'')]),
      (''dangerous'',
       [(''Delete (Blocked)'', ''DELETE FROM customers WHERE id = 1''),
        (''Drop (Blocked)'', ''DROP TABLE products'')])]"

definition samples :: "'v http_response" where
  "samples = HttpJson (catalog_value samples_catalog)"

definition api_samples_catalog :: catalog where
  "api_samples_catalog =
     [(''basic'',
       [(''All Customers'', ''SELECT * FROM customers''),
        (''All Products'', ''SELECT * FROM products''),
        (''Recent Orders'', ''SELECT * FROM orders ORDER BY order_date DESC'')]),
      (''analytics'',
       [(''Customer Revenue'',
         ''SELECT c.name, SUM(oi.quantity * oi.unit_price_cents)/100.0 as revenue FROM customers c JOIN orders o ON c.id = o.customer_id JOIN order_items oi ON o.id = oi.order_id GROUP BY c.id''),
        (''Product Sales'',
         ''SELECT p.name, COUNT(*) as orders, SUM(oi.quantity) as units FROM products p JOIN order_items oi ON p.id = oi.product_id GROUP BY p.id'')]),
      (''dangerous'',
       [(''Delete Customer (Blocked)'', ''DELETE FROM customers WHERE id = 1''),
        (''Drop Table (Blocked)'', ''DROP TABLE products'')])]"

definition api_samples :: "'v http_response" where
  "api_samples = HttpJson (catalog_value api_samples_catalog)"

subsection \<open>Engines that never fail\<close>

text \<open>
  An engine on which every call succeeds: connecting and committing never raise, and
  every statement executes, its rows can be fetched and it has a description.
\<close>

definition engine_total :: "('db, 'v) engine \<Rightarrow> bool" where
  "engine_total E =
     (\<forall>d. eng_connect E d = None \<and> (\<exists>d'. eng_commit E d = Inr d') \<and>
          (\<forall>s. \<exists>c d' rows cols. eng_execute E d s = Inr (c, d') \<and> cur_rows c = Inr rows \<and>
                 cur_description c = Some cols))"

subsection \<open>Concrete stores for the witnesses\<close>

text \<open>
  Values are strings and are their own \<open>str()\<close>. The schema engine answers every
  statement with the same two rows, which read as two tables (\<open>customers\<close> and
  \<open>order items\<close>) or as two columns, and fails on \<open>PRAGMA table_info(order items)\<close>,
  as SQLite does on a name with a space that is not quoted.
\<close>

definition demo_cells :: "pystr cells" where
  "demo_cells = \<lparr>cell_str = id, cell_truthy = (\<lambda>v. v \<noteq> [])\<rparr>"

definition demo_rows :: "pystr list list" where
  "demo_rows = [[''customers'', ''id'', ''INTEGER''], [''order items'', ''name'', ''TEXT'']]"

definition demo_schema_engine :: "(nat, pystr) engine" where
  "demo_schema_engine =
     \<lparr>eng_connect = (\<lambda>_. None),
      eng_execute = (\<lambda>d s. if s = table_info_query ''order items'' then Inl ''syntax error''
                          else Inr (\<lparr>cur_description = None, cur_rows = Inr demo_rows,
                                      cur_rowcount = -1\<rparr>, Suc d)),
      eng_commit = Inr, eng_close = id\<rparr>"

subsection \<open>Helper facts\<close>

lemma safe_clean_blank:
  assumes "\<forall>c\<in>set s. py_isspace c"
  shows "safe_clean s = []"
proof -
  have d: "dropWhile py_isspace s = []"
    using assms by (simp add: dropWhile_eq_Nil_conv)
  show ?thesis
    unfolding safe_clean_def py_strip_def py_rstrip_def d by simp
qed

lemma safe_gate_blank:
  assumes "safe_clean s = []"
  shows "safe_gate s = Allow '' LIMIT 100''"
proof -
  have "re_search dangerous_rx [] = None" and "re_search limit_rx [] = None"
    by code_simp+
  then show ?thesis
    using assms by (simp add: safe_gate_def)
qed

lemma execute_run_sql:
  assumes "py_truthy (fst (request_fields d))"
  shows "execute E (JObj d) st = apfst HttpJson (run_sql E (fst (request_fields d)) (snd (request_fields d)) st)"
  using assms by (cases "request_fields d") (simp add: execute_def)

lemma schema_loop_events:
  assumes "schema_loop E V key col items acc st = (r, st')"
  shows "conn_open st' = conn_open st \<and>
         (\<exists>evs. events st' = events st @ evs \<and> (\<forall>ev\<in>set evs. \<exists>n. ev = Execute (table_info_query n)))"
  using assms
proof (induction E V key col items acc st arbitrary: r rule: schema_loop.induct)
  case (1 E V key col acc st)
  then show ?case by simp
next
  case (2 E V key col t ts acc st)
  then show ?case
    by (fastforce simp: db_execute_def Let_def split: sum.splits prod.splits)
qed

lemma samples_catalog_gate:
  "list_all (\<lambda>(k, xs). list_all (\<lambda>(n, q). evaluate q True =
      (if k = ''dangerous'' then Reject DangerousKeyword else Allow (q @ '' LIMIT 100''))) xs)
     samples_catalog"
  unfolding samples_catalog_def by code_simp

lemma api_samples_catalog_gate:
  "list_all (\<lambda>(k, xs). list_all (\<lambda>(n, q). evaluate q True =
      (if k = ''dangerous'' then Reject DangerousKeyword else Allow (q @ '' LIMIT 100''))) xs)
     api_samples_catalog"
  unfolding api_samples_catalog_def by code_simp

lemma adapter_total_success:
  assumes "engine_total E"
  shows "resp_success (run_sql_response (fst (execute_adapter E (JStr t) st)))"
proof -
  obtain c d1 rows cols where ex: "eng_execute E (db st) t = Inr (c, d1)"
    and rows: "cur_rows c = Inr rows" and desc: "cur_description c = Some cols"
    and cn: "eng_connect E (db st) = None"
    using assms unfolding engine_total_def by blast
  obtain d2 where cm: "eng_commit E d1 = Inr d2"
    using assms unfolding engine_total_def by blast
  show ?thesis
    using ex rows desc cn cm
    by (simp add: execute_adapter_def db_connect_def db_execute_def db_commit_def db_close_def
        run_sql_response_def resp_success_def Let_def)
qed

lemma run_sql_shape: "\<exists>b rest. fst (run_sql E sql safe st) = PDict ((''success'', PBool b) # rest)"
proof -
  have "run_sql E sql safe st = (fst (run_sql E sql safe st), snd (run_sql E sql safe st))"
    by simp
  from run_sql_cases [OF this] obtain r where
    "fst (run_sql E sql safe st) = run_sql_response r \<or> (\<exists>m. fst (run_sql E sql safe st) = fail_resp m)"
    by blast
  then show ?thesis
    by (cases r) (auto simp: run_sql_response_def fail_resp_def)
qed

subsection \<open>Properties of \<open>/api/execute\<close>\<close>

text \<open>
  C15. End to end, \<open>POST /api/execute\<close> of \<open>super_simple_app.py\<close> with safe mode
  selected (no \<open>security_level\<close>, or \<open>"safe"\<close>) executes at most one statement,
  and that statement is the gate's output for the request's \<open>sql\<close>: it carries a
  \<open>LIMIT n\<close> clause, no whole-word dangerous keyword and no semicolon.
\<close>

theorem execute_safe_statements:
  assumes "execute E (JObj d) st = (resp, st')"
    and "py_get d ''security_level'' (JStr ''safe'') = JStr ''safe''"
  shows "\<exists>evs. events st' = events st @ evs \<and> length (executed evs) \<le> 1 \<and>
           (\<forall>t\<in>set (executed evs).
              (\<exists>s. py_get d ''sql'' (JStr []) = JStr s \<and> evaluate s True = Allow t) \<and>
              has_limit_clause t \<and> \<not> has_dangerous_keyword t \<and> CHR '';'' \<notin> set t)"
proof (cases "py_truthy (fst (request_fields d))")
  case False
  then have "st' = st"
    using assms(1) by (cases "request_fields d") (simp add: execute_def)
  then show ?thesis by simp
next
  case True
  then have "apfst HttpJson (run_sql E (py_get d ''sql'' (JStr [])) True st) = (resp, st')"
    using assms by (simp add: execute_run_sql request_fields_def)
  then obtain r where "run_sql E (py_get d ''sql'' (JStr [])) True st = (r, st')"
    by (auto simp: apfst_eq_pair)
  from run_sql_calls [OF this] show ?thesis by simp
qed

theorem execute_safe_statements_witness:
  "py_get [(''sql'', JStr ''select * from t'')] ''security_level'' (JStr ''safe'') = JStr ''safe'' \<and>
   executed (events (snd (execute demo_engine (JObj [(''sql'', JStr ''select * from t'')]) demo_store))) =
     [''select * from t LIMIT 100''] \<and>
   (\<exists>evs. events (snd (execute demo_engine (JObj [(''sql'', JStr ''select * from t'')]) demo_store)) =
           events demo_store @ evs \<and> length (executed evs) \<le> 1 \<and>
     (\<forall>t\<in>set (executed evs).
        (\<exists>s. py_get [(''sql'', JStr ''select * from t'')] ''sql'' (JStr []) = JStr s \<and>
             evaluate s True = Allow t) \<and>
        has_limit_clause t \<and> \<not> has_dangerous_keyword t \<and> CHR '';'' \<notin> set t))"
proof -
  have safe: "py_get [(''sql'', JStr ''select * from t'')] ''security_level'' (JStr ''safe'') = JStr ''safe''"
    by (simp add: py_get_def)
  have ex: "executed (events (snd (execute demo_engine (JObj [(''sql'', JStr ''select * from t'')]) demo_store))) =
     [''select * from t LIMIT 100'']"
    by code_simp
  show ?thesis
    using execute_safe_statements [OF prod.collapse [symmetric] safe] safe ex by simp
qed

text \<open>
  C16. A request whose \<open>sql\<close> is missing or empty (any falsy JSON value) is answered
  \<open>No SQL provided\<close> without touching the store.
\<close>

theorem execute_no_sql:
  assumes "\<not> py_truthy (py_get d ''sql'' (JStr []))"
  shows "execute E (JObj d) st = (HttpJson (fail_resp ''No SQL provided''), st)"
  using assms by (simp add: execute_def request_fields_def)

theorem execute_no_sql_witness:
  "\<not> py_truthy (py_get [(''sql'', JStr [])] ''sql'' (JStr [])) \<and>
   execute demo_engine (JObj [(''sql'', JStr [])]) demo_store =
     (HttpJson (fail_resp ''No SQL provided''), demo_store)"
proof -
  have h: "\<not> py_truthy (py_get [(''sql'', JStr [])] ''sql'' (JStr []))"
    by (simp add: py_get_def)
  show ?thesis
    using execute_no_sql [OF h] h by simp
qed

text \<open>
  C17. The spec rejects whitespace-only input before the gate, but \<open>execute\<close> tests
  \<open>if not sql\<close> without stripping: a text of whitespace reaches the gate, which strips
  it to nothing and admits \<open> LIMIT 100\<close>, and that text is sent to the store.
\<close>

theorem execute_blank_sql:
  assumes "s \<noteq> []" and "\<forall>c\<in>set s. py_isspace c"
  shows "execute E (JObj [(''sql'', JStr s)]) st = apfst HttpJson (run_sql E (JStr s) True st) \<and>
         evaluate s True = Allow '' LIMIT 100''"
proof -
  have "evaluate s True = Allow '' LIMIT 100''"
    using safe_gate_blank [OF safe_clean_blank [OF assms(2)]] by (simp add: evaluate_def)
  moreover have "execute E (JObj [(''sql'', JStr s)]) st = apfst HttpJson (run_sql E (JStr s) True st)"
    using assms(1) by (simp add: execute_def request_fields_def py_get_def)
  ultimately show ?thesis by (rule conjI [rotated])
qed

theorem execute_blank_sql_witness:
  "''  '' \<noteq> [] \<and> list_all py_isspace ''  '' \<and>
   execute demo_engine (JObj [(''sql'', JStr ''  '')]) demo_store =
     apfst HttpJson (run_sql demo_engine (JStr ''  '') True demo_store) \<and>
   evaluate ''  '' True = Allow '' LIMIT 100'' \<and>
   events (snd (execute demo_engine (JObj [(''sql'', JStr ''  '')]) demo_store)) =
     [Connect, Execute '' LIMIT 100'', Commit, Close]"
proof -
  have ne: "''  '' \<noteq> []" by simp
  have sp: "\<forall>c\<in>set ''  ''. py_isspace c" by code_simp
  have ev: "events (snd (execute demo_engine (JObj [(''sql'', JStr ''  '')]) demo_store)) =
     [Connect, Execute '' LIMIT 100'', Commit, Close]"
    by code_simp
  show ?thesis
    using execute_blank_sql [OF ne sp, of demo_engine demo_store] ne sp ev by (simp add: list_all_iff)
qed

text \<open>
  C18. \<open>POST /api/execute\<close> of \<open>simple_app.py\<close> never succeeds and never touches
  the store, whatever the request.
\<close>

theorem api_execute_no_effect:
  "snd (api_execute data st) = st \<and> \<not> http_success (fst (api_execute data st))"
  by (auto simp: api_execute_def http_success_def resp_success_def msg_resp_def
      split: json.splits prod.splits)

text \<open>
  C19. Every request of \<open>simple_app.py\<close> with a non-blank string \<open>sql\<close> fails with
  \<open>NameError\<close> (an HTTP 500): the handler calls \<open>execute_sql_query\<close>, whose body
  sits after the \<open>return\<close> of \<open>get_db_connection\<close> and is never defined.
\<close>

theorem api_execute_name_error:
  assumes "py_get d ''sql'' (JStr []) = JStr s" and "py_strip s \<noteq> []"
  shows "api_execute (JObj d) st =
           (ServerError (''name '' @ py_quote ''execute_sql_query'' @ '' is not defined''), st)"
  using assms by (simp add: api_execute_def request_fields_def)

theorem api_execute_name_error_witness:
  "py_get [(''sql'', JStr ''SELECT 1'')] ''sql'' (JStr []) = JStr ''SELECT 1'' \<and>
   py_strip ''SELECT 1'' \<noteq> [] \<and>
   api_execute (JObj [(''sql'', JStr ''SELECT 1'')]) demo_store =
     (ServerError (''name '' @ py_quote ''execute_sql_query'' @ '' is not defined''), demo_store)"
proof -
  have g: "py_get [(''sql'', JStr ''SELECT 1'')] ''sql'' (JStr []) = JStr ''SELECT 1''"
    by (simp add: py_get_def)
  have ns: "py_strip ''SELECT 1'' \<noteq> []"
    by code_simp
  show ?thesis
    using api_execute_name_error [OF g ns, of demo_store] g ns by simp
qed

subsection \<open>Properties of the schema endpoints\<close>

text \<open>
  C20. Both schema endpoints only read: they execute the table listing and
  \<open>PRAGMA table_info\<close> statements and nothing else, never commit, and leave no
  connection open, on every path.
\<close>

theorem read_schema_read_only:
  assumes "read_schema E V prep key col st = (r, st')" and "\<not> conn_open st"
  shows "\<not> conn_open st' \<and>
         (\<exists>evs. events st' = events st @ evs \<and> Commit \<notin> set evs \<and>
            (\<forall>t\<in>set (executed evs). t = tables_query \<or> (\<exists>n. t = table_info_query n)))"
  using assms
  by (auto simp: read_schema_def db_connect_def db_execute_def db_close_def db_drop_def Let_def
      split: sum.splits prod.splits option.splits dest!: schema_loop_events; fastforce)

theorem read_schema_read_only_witness:
  "\<not> conn_open demo_store \<and>
   \<not> conn_open (snd (schema demo_schema_engine demo_cells demo_store)) \<and>
   (\<exists>evs. events (snd (schema demo_schema_engine demo_cells demo_store)) = events demo_store @ evs \<and>
      Commit \<notin> set evs \<and>
      (\<forall>t\<in>set (executed evs). t = tables_query \<or> (\<exists>n. t = table_info_query n)))"
proof -
  have closed: "\<not> conn_open demo_store"
    by (simp add: demo_store_def)
  have "read_schema demo_schema_engine demo_cells (sum_map (\<lambda>t. py_index t 0)) Inr column_entry demo_store =
          (fst (read_schema demo_schema_engine demo_cells (sum_map (\<lambda>t. py_index t 0)) Inr column_entry demo_store),
           snd (schema demo_schema_engine demo_cells demo_store))"
    by (simp add: schema_def)
  from read_schema_read_only [OF this closed] closed show ?thesis by simp
qed

text \<open>
  C21. The schema dictionary the loop builds has one entry per table name: its keys
  stay distinct, and they are the names the loop read, in addition to those it started
  with.
\<close>

theorem schema_loop_keys:
  assumes "schema_loop E V key col items acc st = (Inr d, st')" and "distinct (map fst acc)"
  shows "distinct (map fst d) \<and>
         (\<exists>names. list_all2 (\<lambda>t n. key t = Inr n) items names \<and>
            fst ` set d = fst ` set acc \<union> cell_str V ` set names)"
  using assms
proof (induction items arbitrary: acc st)
  case Nil
  then show ?case by simp
next
  case (Cons t ts)
  obtain name st1 entries where k: "key t = Inr name"
    and rec: "schema_loop E V key col ts (AList.update (cell_str V name) (PList entries) acc) st1 = (Inr d, st')"
    using Cons.prems(1) by (auto split: sum.splits prod.splits)
  have "distinct (map fst (AList.update (cell_str V name) (PList entries) acc))"
    using Cons.prems(2) by (rule distinct_update)
  with Cons.IH [OF rec] obtain names where "distinct (map fst d)"
    and all: "list_all2 (\<lambda>t n. key t = Inr n) ts names"
    and dom: "fst ` set d = fst ` set (AList.update (cell_str V name) (PList entries) acc) \<union> cell_str V ` set names"
    by blast
  then show ?case
    using k by (intro conjI exI [of _ "name # names"]) (auto simp: dom_update)
qed

theorem schema_loop_keys_witness:
  "schema_loop demo_schema_engine demo_cells Inr column_entry [''customers'', ''customers''] [] demo_store =
     (Inr [(''customers'', PList [PDict [(''name'', PCell ''id''), (''type'', PCell ''INTEGER'')],
                                  PDict [(''name'', PCell ''name''), (''type'', PCell ''TEXT'')]])],
      \<lparr>db = 2, conn_open = False,
       events = [Execute (table_info_query ''customers''), Execute (table_info_query ''customers'')]\<rparr>) \<and>
   distinct (map fst ([] :: (pystr \<times> pystr pyval) list)) \<and>
   (distinct (map fst [(''customers'', PList [PDict [(''name'', PCell ''id''), (''type'', PCell ''INTEGER'')],
                                  PDict [(''name'', PCell ''name''), (''type'', PCell ''TEXT'')]])]) \<and>
    (\<exists>names. list_all2 (\<lambda>t n. (Inr t :: pystr + pystr) = Inr n) [''customers'', ''customers''] names \<and>
       fst ` set [(''customers'', PList [PDict [(''name'', PCell ''id''), (''type'', PCell ''INTEGER'')],
                                  PDict [(''name'', PCell ''name''), (''type'', PCell ''TEXT'')]])] =
       fst ` set ([] :: (pystr \<times> pystr pyval) list) \<union> cell_str demo_cells ` set names))"
proof -
  have run: "schema_loop demo_schema_engine demo_cells Inr column_entry [''customers'', ''customers''] [] demo_store =
     (Inr [(''customers'', PList [PDict [(''name'', PCell ''id''), (''type'', PCell ''INTEGER'')],
                                  PDict [(''name'', PCell ''name''), (''type'', PCell ''TEXT'')]])],
      \<lparr>db = 2, conn_open = False,
       events = [Execute (table_info_query ''customers''), Execute (table_info_query ''customers'')]\<rparr>)"
    by code_simp
  have nil: "distinct (map fst ([] :: (pystr \<times> pystr pyval) list))"
    by simp
  show ?thesis
    by (rule conjI [OF run conjI [OF nil schema_loop_keys [OF run nil]]])
qed

text \<open>
  C22. Table names are interpolated unquoted into \<open>PRAGMA table_info(...)\<close>: when
  the statement for a later table fails (as SQLite's does for a name with a space), the
  endpoint answers the error alone, dropping the entries already read, and frees the
  connection without closing it.
\<close>

theorem schema_pragma_failure:
  assumes "eng_connect E (db st) = None"
    and "eng_execute E (db st) tables_query = Inr (ct, dt)"
    and "cur_rows ct = Inr [na # ra, nb # rb]"
    and "eng_execute E dt (table_info_query (cell_str V na)) = Inr (cp, dp)"
    and "cur_rows cp = Inr cols" and "sum_map column_entry cols = Inr entries"
    and "eng_execute E dp (table_info_query (cell_str V nb)) = Inl e"
  shows "schema E V st =
           (HttpJson (error_resp e),
            st\<lparr>db := eng_close E dp, conn_open := False,
               events := events st @ [Connect, Execute tables_query,
                 Execute (table_info_query (cell_str V na)),
                 Execute (table_info_query (cell_str V nb)), Dropped]\<rparr>)"
  using assms
  by (simp add: schema_def read_schema_def db_connect_def db_execute_def db_drop_def py_index_def Let_def)

theorem schema_pragma_failure_witness:
  "schema demo_schema_engine demo_cells demo_store =
     (HttpJson (error_resp ''syntax error''),
      demo_store\<lparr>db := eng_close demo_schema_engine (Suc (Suc 0)), conn_open := False,
        events := events demo_store @ [Connect, Execute tables_query,
          Execute (table_info_query (cell_str demo_cells ''customers'')),
          Execute (table_info_query (cell_str demo_cells ''order items'')), Dropped]\<rparr>)"
  by (rule schema_pragma_failure
        [where ct = "\<lparr>cur_description = None, cur_rows = Inr demo_rows, cur_rowcount = -1\<rparr>"
           and dt = "Suc 0" and ra = "[''id'', ''INTEGER'']" and rb = "[''name'', ''TEXT'']"
           and cp = "\<lparr>cur_description = None, cur_rows = Inr demo_rows, cur_rowcount = -1\<rparr>"
           and cols = demo_rows
           and entries = "[PDict [(''name'', PCell ''id''), (''type'', PCell ''INTEGER'')],
                           PDict [(''name'', PCell ''name''), (''type'', PCell ''TEXT'')]]"])
     (simp_all add: demo_schema_engine_def demo_store_def demo_rows_def demo_cells_def
        table_info_query_def tables_query_def column_entry_def py_index_def py_quote_def)

subsection \<open>The sample catalogs\<close>


subsection \<open>Liveness and the shape of answers\<close>




end
