(* ===== verification/Startup.thy ===== *)
theory Startup
  imports Store
begin

text \<open>
  Database initialisation at start-up: \<open>init_db\<close> of \<open>super_simple_app.py\<close>
  (lines 20--26) and \<open>initialize_db\<close> of \<open>simple_app.py\<close> (lines 18--32). The host
  state adds to the store whether the database file exists; \<open>sqlite3.connect\<close>
  creates the file when it connects. The seed file \<open>sql_agent_seed.sql\<close> lies outside
  \<open>src/\<close>: it is a parameter, its text or \<open>None\<close> when it is missing, and running it
  (\<open>conn.executescript\<close>) is the engine's business. Printing is not modelled. An
  exception here is not caught: the process stops, and its connection is freed.
\<close>

record 'db host =
  db_file :: bool
  hstore :: "'db store"

text \<open>\<open>conn.executescript(text)\<close> with the engine's \<open>run\<close>.\<close>

definition db_script ::
  "('db \<Rightarrow> pystr \<Rightarrow> pystr + 'db) \<Rightarrow> pystr \<Rightarrow> 'db store \<Rightarrow> (pystr + unit) \<times> 'db store" where
  "db_script run txt st =
     (let st' = st\<lparr>events := events st @ [Script txt]\<rparr> in
      case run (db st) txt of
        Inl e \<Rightarrow> (Inl e, st')
      | Inr d \<Rightarrow> (Inr (), st'\<lparr>db := d\<rparr>))"

text \<open>
  The body under \<open>if not os.path.exists(DB_PATH)\<close>: connect (creating the file), read
  the seed file, run it, commit, close.
\<close>

definition create_db ::
  "('db, 'v) engine \<Rightarrow> ('db \<Rightarrow> pystr \<Rightarrow> pystr + 'db) \<Rightarrow> pystr option \<Rightarrow> 'db host \<Rightarrow>
   (pystr + unit) \<times> 'db host" where
  "create_db E run seed h =
     (case db_connect E (hstore h) of
        (Inl e, st1) \<Rightarrow> (Inl e, h\<lparr>hstore := st1\<rparr>)
      | (Inr _, st1) \<Rightarrow>
          (case seed of
             None \<Rightarrow>
               (Inl (''[Errno 2] No such file or directory: '' @ py_quote ''sql_agent_seed.sql''),
                h\<lparr>db_file := True, hstore := db_drop E st1\<rparr>)
           | Some txt \<Rightarrow>
               (case db_script run txt st1 of
                  (Inl e, st2) \<Rightarrow> (Inl e, h\<lparr>db_file := True, hstore := db_drop E st2\<rparr>)
                | (Inr _, st2) \<Rightarrow>
                    (case db_commit E st2 of
                       (Inl e, st3) \<Rightarrow> (Inl e, h\<lparr>db_file := True, hstore := db_drop E st3\<rparr>)
                     | (Inr _, st3) \<Rightarrow> (Inr (), h\<lparr>db_file := True, hstore := db_close E st3\<rparr>)))))"

text \<open>\<open>init_db()\<close> of \<open>super_simple_app.py\<close>.\<close>

definition init_db ::
  "('db, 'v) engine \<Rightarrow> ('db \<Rightarrow> pystr \<Rightarrow> pystr + 'db) \<Rightarrow> pystr option \<Rightarrow> 'db host \<Rightarrow>
   (pystr + unit) \<times> 'db host" where
  "init_db E run seed h = (if db_file h then (Inr (), h) else create_db E run seed h)"

text \<open>
  \<open>initialize_db()\<close> of \<open>simple_app.py\<close>: the same initialisation, then, after a string
  literal left over from a docstring, \<open>return sqlite3.connect(DB_PATH)\<close>: the
  function returns a new open connection. Nothing in the file calls it.
\<close>

definition initialize_db ::
  "('db, 'v) engine \<Rightarrow> ('db \<Rightarrow> pystr \<Rightarrow> pystr + 'db) \<Rightarrow> pystr option \<Rightarrow> 'db host \<Rightarrow>
   (pystr + unit) \<times> 'db host" where
  "initialize_db E run seed h =
     (case init_db E run seed h of
        (Inl e, h1) \<Rightarrow> (Inl e, h1)
      | (Inr _, h1) \<Rightarrow>
          (case db_connect E (hstore h1) of
             (Inl e, st) \<Rightarrow> (Inl e, h1\<lparr>hstore := st\<rparr>)
           | (Inr _, st) \<Rightarrow> (Inr (), h1\<lparr>db_file := True, hstore := st\<rparr>)))"

definition demo_host :: "nat host" where
  "demo_host = \<lparr>db_file = False, hstore = demo_store\<rparr>"

subsection \<open>Properties of initialisation\<close>

text \<open>
  C31. Initialisation runs once: when it succeeds the file exists, the seed script has
  been run and committed on a connection that is closed again, and running it a second
  time does nothing.
\<close>

theorem init_db_once:
  assumes "init_db E run seed h = (Inr (), h')" and "\<not> db_file h" and "\<not> conn_open (hstore h)"
  shows "db_file h' \<and> \<not> conn_open (hstore h') \<and>
         (\<exists>txt. seed = Some txt \<and> events (hstore h') = events (hstore h) @ [Connect, Script txt, Commit, Close]) \<and>
         init_db E run seed' h' = (Inr (), h')"
  using assms
  by (auto simp: init_db_def create_db_def db_connect_def db_script_def db_commit_def db_close_def Let_def
      split: option.splits sum.splits prod.splits)

theorem init_db_once_witness:
  "init_db demo_engine (\<lambda>d _. Inr (Suc d)) (Some ''CREATE TABLE t (x)'') demo_host =
     (Inr (), \<lparr>db_file = True, hstore = \<lparr>db = 1, conn_open = False,
                 events = [Connect, Script ''CREATE TABLE t (x)'', Commit, Close]\<rparr>\<rparr>) \<and>
   init_db demo_engine (\<lambda>d _. Inr (Suc d)) None
     \<lparr>db_file = True, hstore = \<lparr>db = 1, conn_open = False,
        events = [Connect, Script ''CREATE TABLE t (x)'', Commit, Close]\<rparr>\<rparr> =
     (Inr (), \<lparr>db_file = True, hstore = \<lparr>db = 1, conn_open = False,
        events = [Connect, Script ''CREATE TABLE t (x)'', Commit, Close]\<rparr>\<rparr>)"
proof -
  have run: "init_db demo_engine (\<lambda>d _. Inr (Suc d)) (Some ''CREATE TABLE t (x)'') demo_host =
     (Inr (), \<lparr>db_file = True, hstore = \<lparr>db = 1, conn_open = False,
                 events = [Connect, Script ''CREATE TABLE t (x)'', Commit, Close]\<rparr>\<rparr>)"
    by code_simp
  have "\<not> db_file demo_host" and "\<not> conn_open (hstore demo_host)"
    by (simp_all add: demo_host_def demo_store_def)
  from init_db_once [OF run this, of None] run show ?thesis by simp
qed

text \<open>
  C32. A failed initialisation is never repeated: once the connection is made the file
  exists, so when the seed file is missing (or its script fails) the start-up stops with
  the error, and every later start finds the file and skips initialisation, leaving the
  database without the seeded tables.
\<close>

theorem init_db_failure_sticks:
  assumes "eng_connect E (db (hstore h)) = None" and "\<not> db_file h"
  shows "\<exists>e h'. init_db E run None h = (Inl e, h') \<and> db_file h' \<and>
           events (hstore h') = events (hstore h) @ [Connect, Dropped] \<and>
           init_db E run seed h' = (Inr (), h')"
  using assms
  by (auto simp: init_db_def create_db_def db_connect_def db_drop_def Let_def)

theorem init_db_failure_sticks_witness:
  "eng_connect demo_engine (db (hstore demo_host)) = None \<and> \<not> db_file demo_host \<and>
   init_db demo_engine (\<lambda>d _. Inr (Suc d)) None demo_host =
     (Inl (''[Errno 2] No such file or directory: '' @ py_quote ''sql_agent_seed.sql''),
      \<lparr>db_file = True, hstore = \<lparr>db = 0, conn_open = False, events = [Connect, Dropped]\<rparr>\<rparr>) \<and>
   init_db demo_engine (\<lambda>d _. Inr (Suc d)) (Some ''CREATE TABLE t (x)'')
     \<lparr>db_file = True, hstore = \<lparr>db = 0, conn_open = False, events = [Connect, Dropped]\<rparr>\<rparr> =
     (Inr (), \<lparr>db_file = True, hstore = \<lparr>db = 0, conn_open = False, events = [Connect, Dropped]\<rparr>\<rparr>)"
proof -
  have c: "eng_connect demo_engine (db (hstore demo_host)) = None"
    and f: "\<not> db_file demo_host"
    by (simp_all add: demo_engine_def demo_host_def)
  have "init_db demo_engine (\<lambda>d _. Inr (Suc d)) None demo_host =
     (Inl (''[Errno 2] No such file or directory: '' @ py_quote ''sql_agent_seed.sql''),
      \<lparr>db_file = True, hstore = \<lparr>db = 0, conn_open = False, events = [Connect, Dropped]\<rparr>\<rparr>)"
    by code_simp
  with init_db_failure_sticks [OF c f, of "\<lambda>d _. Inr (Suc d)" "Some ''CREATE TABLE t (x)''"] c f
  show ?thesis by simp
qed

text \<open>
  C33. \<open>initialize_db\<close> of \<open>simple_app.py\<close> leaves a connection open whenever it
  returns: it initialises, then opens and returns a connection that no caller closes.
\<close>

theorem initialize_db_leaves_open:
  assumes "initialize_db E run seed h = (Inr (), h')"
  shows "conn_open (hstore h') \<and> db_file h' \<and> last (events (hstore h')) = Connect"
  using assms
  by (auto simp: initialize_db_def db_connect_def Let_def split: prod.splits sum.splits option.splits)

theorem initialize_db_leaves_open_witness:
  "initialize_db demo_engine (\<lambda>d _. Inr (Suc d)) (Some ''CREATE TABLE t (x)'') demo_host =
     (Inr (), \<lparr>db_file = True, hstore = \<lparr>db = 1, conn_open = True,
                 events = [Connect, Script ''CREATE TABLE t (x)'', Commit, Close, Connect]\<rparr>\<rparr>) \<and>
   conn_open (hstore \<lparr>db_file = True, hstore = \<lparr>db = 1, conn_open = True,
                 events = [Connect, Script ''CREATE TABLE t (x)'', Commit, Close, Connect]\<rparr>\<rparr>)"
proof -
  have run: "initialize_db demo_engine (\<lambda>d _. Inr (Suc d)) (Some ''CREATE TABLE t (x)'') demo_host =
     (Inr (), \<lparr>db_file = True, hstore = \<lparr>db = 1, conn_open = True,
                 events = [Connect, Script ''CREATE TABLE t (x)'', Commit, Close, Connect]\<rparr>\<rparr>)"
    by code_simp
  from initialize_db_leaves_open [OF run] run show ?thesis by simp
qed

end
