(* ===== verification/Spec2Isabelle.thy ===== *)
theory Spec2Isabelle
  imports Api Startup
begin

text \<open>
  \<^bold>\<open>A verification development of SQLAgent.\<close>

  \<^bold>\<open>The program.\<close> Two near-identical Flask applications,
  \<open>src/super_simple_app.py\<close> and \<open>src/simple_app.py\<close>, accept SQL text on
  \<open>POST /api/execute\<close>, run it against an SQLite file and answer with JSON; both also
  list the schema and serve a catalog of sample queries. A request flows through three
  parts: the handler reads \<open>sql\<close> and \<open>security_level\<close> from the JSON body and
  rejects an empty text; in safe mode the gate (\<open>run_sql\<close>, lines 31--38) strips the
  text, rejects a whole-word dangerous keyword or a remaining semicolon, and appends
  \<open> LIMIT 100\<close> when no \<open>LIMIT n\<close> clause is present; the execution adapter (lines
  40--55) connects, executes, and fetches and closes when the text starts with
  \<open>SELECT\<close>, else commits and closes, turning any exception into an error answer.
  In \<open>simple_app.py\<close> the same gate and adapter (\<open>execute_sql_query\<close>, lines 37--99)
  sit after the \<open>return\<close> of \<open>get_db_connection\<close>: they are never defined, and the
  handler \<open>api_execute\<close> fails with \<open>NameError\<close> on every non-blank request.

  \<^bold>\<open>The theories.\<close>
  \<^item> \<open>Prelude\<close>: rule collections and the list facts the others share (substrings,
    \<open>sum_map\<close> for list comprehensions that may raise, framing of a word inside
    non-word padding).
  \<^item> \<open>PyStr\<close>: the Python built-ins: the character classes of \<open>str.isspace\<close> and of
    \<open>\w\<close>, \<open>\d\<close>; \<open>strip\<close>, \<open>rstrip\<close>; \<open>upper().startswith('SELECT')\<close>
    (\<open>starts_with_select\<close>); \<open>str()\<close> of an integer with its reading back; JSON
    request values with \<open>dict.get\<close>, truth values and type names. Strings are Python
    \<open>str\<close> over the code points below 256: an Isabelle \<open>char\<close> is read as a Latin-1
    code point, and the character classes are Python's own on that range.
  \<^item> \<open>Regex\<close>: \<open>re.search\<close> for the constructs the patterns use (\<open>\b\<close>, classes,
    sequence, alternation, greedy \<open>+\<close> of a class): an inductive reference semantics
    \<open>rx_match\<close>, the executable backtracking matcher \<open>rx_ends\<close> listing end
    positions in the order \<open>sre\<close> tries them, \<open>re_search\<close> over the start positions
    \<open>0..len(s)\<close>, and a language semantics \<open>lang\<close> with whole-word occurrences
    \<open>occurs_bounded\<close>. Lemmas: the matcher computes the reference semantics, \<open>re_search\<close>
    reports the leftmost match, and \<open>\b(r)\b\<close> finds a match iff a word of
    \<open>lang r\<close> occurs whole.
  \<^item> \<open>Gate\<close>: the patterns built as the source writes them, the gate \<open>safe_gate\<close>,
    the spec's \<open>evaluate\<close>, and the contract \<open>gate_spec\<close> over whole-word keyword
    and limit-clause occurrences. C1--C6: the patterns decide the contract's
    predicates, the gate refines the contract, the rejections are characterised on the
    raw input, every admitted text carries a limit clause and no keyword or semicolon,
    and the gate is idempotent up to whitespace.
  \<^item> \<open>Store\<close>: SQLite as an interface (\<open>engine\<close>: connect, execute, commit,
    close; \<open>cursor\<close>: description, rows, rowcount) and a store state of database,
    open connection and call log; the adapter \<open>execute_adapter\<close>, \<open>run_sql\<close> and
    the dead \<open>execute_sql_query\<close>. C8--C14: rejected texts never reach the store, at
    most one statement is executed and it is the gate's output, the calls follow the
    adapter's protocol, no connection is left open, the two request functions agree,
    and two texts the gate admits but the adapter misclassifies (a writing
    \<open>PRAGMA\<close>, a \<open>WITH\<close> query).
  \<^item> \<open>Api\<close>: the handlers \<open>execute\<close> and \<open>api_execute\<close>, the schema endpoints
    (one body \<open>read_schema\<close> with the loop \<open>schema_loop\<close>, instantiated as
    \<open>schema\<close> and \<open>get_schema\<close>/\<open>api_schema\<close>) and the sample catalogs. C15--C23:
    end-to-end safety of safe mode, the empty-input answer, whitespace-only input
    reaching the store, \<open>api_execute\<close> failing on every request, the schema endpoints
    only reading, distinct schema keys, all-or-nothing schema answers, and the
    samples matching their categories; C29--C30: on an engine that never fails the
    gate's rejections are the only failures (\<open>engine_total\<close>), and every answer has
    the \<open>ApiResponse\<close> shape.
  \<^item> \<open>Startup\<close>: \<open>init_db\<close> and \<open>initialize_db\<close> over a host state of file existence
    and store, the seed text and \<open>executescript\<close> being parameters. C31--C33:
    initialisation runs once, a failed initialisation is never repeated (the connect
    has created the file), and \<open>initialize_db\<close> returns an open connection.
  \<^item> this theory: the spec's scenarios (C7), the reading back of counts (C24), and
    the gate's behaviours found while modelling (C25--C28).

  \<^bold>\<open>Evaluation.\<close> Concrete runs use small engines (\<open>demo_engine\<close>,
  \<open>demo_schema_engine\<close>) over a counter database and are evaluated by
  \<open>code_simp\<close>; \<open>ci_char_code\<close> is a proved code equation that keeps the matcher
  fast on long texts. No fuel is needed: every function is total (the matcher and the
  loops recurse on the pattern or on a list).

  \<^bold>\<open>Not modelled.\<close> SQLite itself (an interface, not a definition; which statement
  succeeds, and what a transaction keeps, is the engine's), Flask routing, request
  parsing and JSON serialisation, JSON floats, \<open>render_template\<close> (\<open>home\<close>,
  \<open>index\<close>), printing, the \<open>__main__\<close> blocks (one only initialises and never calls
  \<open>app.run\<close>, the other serves without initialising: recorded as findings), the
  contents of the seed script (outside \<open>src/\<close>), the API key assignment of
  \<open>simple_app.py\<close>, and code points of 256 and above.
\<close>


subsection \<open>Numbers in messages\<close>


subsection \<open>Behaviours of the gate found while modelling\<close>





end
